theory Spec2Isabelle
  imports Complex_Main
begin

section \<open>Bayesian bandits with action sampling (src/src/BayesianBanditsSampling.py)\<close>

text \<open>
  The embedding follows \<^verbatim>\<open>BayesianBanditSampling\<close> and its Monte Carlo subclass.
  Numbers are numpy doubles read as exact reals extended by the three special values
  that the code can produce (\<open>inf\<close> from \<open>1/0\<close> and from the \<open>argMax\<close> sentinel,
  \<open>-inf\<close> from \<open>log 0\<close>, \<open>nan\<close> from the mean of an empty axis); rounding is not modelled.
  The three random sources (Beta draws, multinomial votes, reward draws) are explicit
  tables of outcomes handed to the run. An exception is a value that carries the state
  of the object at the moment it is raised.
\<close>

subsection \<open>Numbers and exceptions\<close>

datatype npfloat = Fin real | PInf | NInf | NaN

datatype error = ValueError | TypeError | KeyError | IndexError | OverflowError

text \<open>\<^verbatim>\<open>np.maximum\<close> and \<^verbatim>\<open>np.minimum\<close>: a nan operand gives nan.\<close>

fun np_maximum :: "npfloat \<Rightarrow> npfloat \<Rightarrow> npfloat" where
  "np_maximum NaN y = NaN"
| "np_maximum x NaN = NaN"
| "np_maximum PInf y = PInf"
| "np_maximum x PInf = PInf"
| "np_maximum NInf y = y"
| "np_maximum x NInf = x"
| "np_maximum (Fin x) (Fin y) = Fin (max x y)"

fun np_minimum :: "npfloat \<Rightarrow> npfloat \<Rightarrow> npfloat" where
  "np_minimum NaN y = NaN"
| "np_minimum x NaN = NaN"
| "np_minimum NInf y = NInf"
| "np_minimum x NInf = NInf"
| "np_minimum PInf y = y"
| "np_minimum x PInf = x"
| "np_minimum (Fin x) (Fin y) = Fin (min x y)"

text \<open>\<^verbatim>\<open>1/x\<close> on a numpy double: division by zero warns and gives \<open>inf\<close>.\<close>

fun np_recip :: "npfloat \<Rightarrow> npfloat" where
  "np_recip (Fin x) = (if x = 0 then PInf else Fin (1 / x))"
| "np_recip PInf = Fin 0"
| "np_recip NInf = Fin 0"
| "np_recip NaN = NaN"

text \<open>\<^verbatim>\<open>1-x\<close>.\<close>

fun np_one_minus :: "npfloat \<Rightarrow> npfloat" where
  "np_one_minus (Fin x) = Fin (1 - x)"
| "np_one_minus PInf = NInf"
| "np_one_minus NInf = PInf"
| "np_one_minus NaN = NaN"

text \<open>\<^verbatim>\<open>np.log(t)\<close> and \<^verbatim>\<open>np.sqrt(t)\<close> on a loop index of \<^verbatim>\<open>np.arange\<close>:
  \<open>log 0\<close> warns and gives \<open>-inf\<close>.\<close>

definition np_log :: "nat \<Rightarrow> npfloat" where
  "np_log t = (if t = 0 then NInf else Fin (ln (real t)))"

definition np_sqrt :: "nat \<Rightarrow> npfloat" where
  "np_sqrt t = Fin (sqrt (real t))"

text \<open>\<open>x < y\<close> on doubles; every comparison with nan is false.\<close>

fun np_less :: "npfloat \<Rightarrow> npfloat \<Rightarrow> bool" where
  "np_less NaN y = False"
| "np_less x NaN = False"
| "np_less x NInf = False"
| "np_less NInf y = True"
| "np_less PInf y = False"
| "np_less x PInf = True"
| "np_less (Fin x) (Fin y) = (x < y)"

text \<open>The test of numpy's argmax scan, "candidate \<open>x\<close> replaces the current best \<open>y\<close>":
  a nan is never replaced and replaces anything else.\<close>

definition np_gt :: "npfloat \<Rightarrow> npfloat \<Rightarrow> bool" where
  "np_gt x y = (y \<noteq> NaN \<and> (x = NaN \<or> np_less y x))"

text \<open>\<^verbatim>\<open>int(x)\<close> on a double: truncation towards zero; nan and the infinities raise.\<close>

fun py_int :: "npfloat \<Rightarrow> error + int" where
  "py_int (Fin x) = Inr (if 0 \<le> x then \<lfloor>x\<rfloor> else \<lceil>x\<rceil>)"
| "py_int PInf = Inl OverflowError"
| "py_int NInf = Inl OverflowError"
| "py_int NaN = Inl ValueError"

text \<open>\<^verbatim>\<open>.mean()\<close> and \<^verbatim>\<open>.var()\<close> (population variance, \<open>ddof = 0\<close>) along an axis;
  an empty axis warns and gives nan.\<close>

definition mean_list :: "real list \<Rightarrow> real" where
  "mean_list xs = sum_list xs / real (length xs)"

definition np_mean :: "real list \<Rightarrow> npfloat" where
  "np_mean xs = (if xs = [] then NaN else Fin (mean_list xs))"

definition np_var :: "real list \<Rightarrow> npfloat" where
  "np_var xs = (if xs = [] then NaN
     else Fin (mean_list (map (\<lambda>x. (x - mean_list xs)\<^sup>2) xs)))"

subsection \<open>argmax\<close>

text \<open>\<^verbatim>\<open>.argmax()\<close>: one left-to-right scan that keeps the first maximal position;
  an empty sequence raises.\<close>

primrec argmax_from :: "('a \<Rightarrow> 'a \<Rightarrow> bool) \<Rightarrow> nat \<Rightarrow> 'a \<Rightarrow> nat \<Rightarrow> 'a list \<Rightarrow> nat" where
  "argmax_from gt bi bv i [] = bi"
| "argmax_from gt bi bv i (x # xs) =
     (if gt x bv then argmax_from gt i x (Suc i) xs else argmax_from gt bi bv (Suc i) xs)"

definition argmax :: "('a \<Rightarrow> 'a \<Rightarrow> bool) \<Rightarrow> 'a list \<Rightarrow> error + nat" where
  "argmax gt xs = (case xs of [] \<Rightarrow> Inl ValueError | x # ys \<Rightarrow> Inr (argmax_from gt 0 x 1 ys))"

subsection \<open>Two-dimensional arrays\<close>

text \<open>A \<open>K \<times> t_max\<close> array is held as the list of its \<open>t_max\<close> columns, each a list of
  \<open>K\<close> entries: the code reads and writes whole columns \<^verbatim>\<open>a[:,t]\<close> and single
  entries \<^verbatim>\<open>a[k,t]\<close>, which is \<open>a ! t ! k\<close> here.\<close>

type_synonym 'a array2 = "'a list list"

definition zeros2 :: "nat \<Rightarrow> nat \<Rightarrow> 'a \<Rightarrow> 'a array2" where
  "zeros2 k t_max z = replicate t_max (replicate k z)"

definition get_col :: "'a array2 \<Rightarrow> nat \<Rightarrow> error + 'a list" where
  "get_col a t = (if t < length a then Inr (a ! t) else Inl IndexError)"

definition set_col :: "'a array2 \<Rightarrow> nat \<Rightarrow> 'a list \<Rightarrow> error + 'a array2" where
  "set_col a t v =
     (if t < length a then
        (if length v = length (a ! t) then Inr (a[t := v]) else Inl ValueError)
      else Inl IndexError)"

definition get_elem :: "'a array2 \<Rightarrow> nat \<Rightarrow> nat \<Rightarrow> error + 'a" where
  "get_elem a k t = (if t < length a \<and> k < length (a ! t) then Inr (a ! t ! k) else Inl IndexError)"

definition set_elem :: "'a array2 \<Rightarrow> nat \<Rightarrow> nat \<Rightarrow> 'a \<Rightarrow> error + 'a array2" where
  "set_elem a k t x =
     (if t < length a \<and> k < length (a ! t) then Inr (a[t := (a ! t)[k := x]])
      else Inl IndexError)"

text \<open>\<^verbatim>\<open>a[:, :t+1].sum(axis=1, keepdims=True)\<close>: per row, the sum over the columns
  \<open>0..t\<close>; a slice is clipped to the array, never out of range.\<close>

definition row_sums_upto :: "nat \<Rightarrow> real array2 \<Rightarrow> nat \<Rightarrow> real list" where
  "row_sums_upto k a t = map (\<lambda>i. sum_list (map (\<lambda>c. c ! i) (take (Suc t) a))) [0..<k]"

text \<open>Elementwise arithmetic of two column vectors (shape \<open>(n, 1)\<close>) with numpy's
  broadcasting: equal lengths, or one of them of length one; anything else raises.\<close>

definition broadcast2 :: "(real \<Rightarrow> real \<Rightarrow> real) \<Rightarrow> real list \<Rightarrow> real list \<Rightarrow> error + real list" where
  "broadcast2 f xs ys =
     (if length xs = length ys then Inr (map2 f xs ys)
      else if length xs = 1 then Inr (map (f (hd xs)) ys)
      else if length ys = 1 then Inr (map (\<lambda>x. f x (hd ys)) xs)
      else Inl ValueError)"

text \<open>\<^verbatim>\<open>np.where(col == 1)[0][0]\<close>: the first position holding the value.\<close>

fun first_index :: "('a \<Rightarrow> bool) \<Rightarrow> 'a list \<Rightarrow> nat option" where
  "first_index p [] = None"
| "first_index p (x # xs) = (if p x then Some 0 else map_option Suc (first_index p xs))"

subsection \<open>The bandit object and its random sources\<close>

text \<open>The \<^verbatim>\<open>sampling\<close> dictionary: its \<^verbatim>\<open>'type'\<close> and the numeric knobs, each of which
  may be absent (reading an absent key raises KeyError).\<close>

record sampling_cfg =
  sampling_type :: string
  sampling_n_samples :: "real option"
  sampling_n_0 :: "real option"
  sampling_n :: "real option"
  sampling_n_max :: "real option"

text \<open>The attributes of a \<^verbatim>\<open>BayesianBanditSamplingMonteCarlo\<close> object.
  \<open>reward_dist\<close> and \<open>prior_dist\<close> are the \<^verbatim>\<open>.name\<close> of the two scipy distributions,
  \<open>reward_mean\<close> is \<^verbatim>\<open>reward_function['dist'].mean\<close>; the prior's \<open>alpha\<close> and
  \<open>beta\<close> are column vectors.\<close>

record bandit =
  K :: nat
  reward_dist :: string
  reward_mean :: "real \<Rightarrow> real"
  prior_dist :: string
  prior_alpha :: "real list"
  prior_beta :: "real list"
  sampling :: sampling_cfg
  M :: nat
  reward_posterior_alpha :: "real list list"
  reward_posterior_beta :: "real list list"
  actions_predictive_density_mean :: "npfloat array2"
  actions_predictive_density_var :: "npfloat array2"
  actions :: "real array2"
  returns :: "real array2"
  returns_expected :: "npfloat array2"
  n_samples :: "npfloat list"

text \<open>The outcomes of the random calls: \<open>beta_rvs \<alpha> \<beta> t k m\<close> is entry \<open>(k, m)\<close> of the
  parameter matrix drawn at time \<open>t\<close> from the posterior with hyperparameters \<open>\<alpha>\<close>, \<open>\<beta>\<close>;
  \<open>multinomial p t i\<close> is the arm of the \<open>i\<close>-th vote drawn at time \<open>t\<close> with
  probabilities \<open>p\<close>; \<open>reward_rvs t k\<close> is entry \<open>k\<close> of the reward vector drawn at \<open>t\<close>.\<close>

record rng =
  beta_rvs :: "real list \<Rightarrow> real list \<Rightarrow> nat \<Rightarrow> nat \<Rightarrow> nat \<Rightarrow> real"
  multinomial :: "npfloat list \<Rightarrow> nat \<Rightarrow> nat \<Rightarrow> nat"
  reward_rvs :: "nat \<Rightarrow> nat \<Rightarrow> real"

text \<open>\<^verbatim>\<open>__init__\<close>: the posterior history starts with the prior's hyperparameters;
  the arrays exist only once \<^verbatim>\<open>execute\<close> has allocated them.\<close>

definition init :: "nat \<Rightarrow> string \<Rightarrow> (real \<Rightarrow> real) \<Rightarrow> string \<Rightarrow> real list \<Rightarrow> real list
    \<Rightarrow> sampling_cfg \<Rightarrow> nat \<Rightarrow> bandit" where
  "init k rd rm pd a0 b0 s m =
     \<lparr>K = k, reward_dist = rd, reward_mean = rm, prior_dist = pd, prior_alpha = a0,
      prior_beta = b0, sampling = s, M = m,
      reward_posterior_alpha = [a0], reward_posterior_beta = [b0],
      actions_predictive_density_mean = [], actions_predictive_density_var = [],
      actions = [], returns = [], returns_expected = [], n_samples = []\<rparr>"

subsection \<open>The Monte Carlo estimator: compute_action_predictive_density\<close>

text \<open>A list of results that may each have raised: the first exception wins.\<close>

fun collect :: "('e + 'a) list \<Rightarrow> 'e + 'a list" where
  "collect [] = Inr []"
| "collect (r # rs) =
     (case r of Inl e \<Rightarrow> Inl e
      | Inr x \<Rightarrow> (case collect rs of Inl e \<Rightarrow> Inl e | Inr xs \<Rightarrow> Inr (x # xs)))"

text \<open>\<^verbatim>\<open>returns_expected_samples.argmax(axis=0)\<close> on a \<open>K \<times> M\<close> matrix held by columns:
  one argmax per column. With no row (\<open>K = 0\<close>) numpy raises; with no column the result
  is empty.\<close>

definition argmax_axis0 :: "nat \<Rightarrow> real array2 \<Rightarrow> error + nat list" where
  "argmax_axis0 k cols =
     (if k = 0 then Inl ValueError else collect (map (argmax (>)) cols))"

text \<open>Row \<open>k\<close> of \<^verbatim>\<open>(am[None,:] == np.arange(K)[:,None]).astype(int)\<close>.\<close>

definition indicator_row :: "nat list \<Rightarrow> nat \<Rightarrow> real list" where
  "indicator_row am k = map (\<lambda>a. if a = k then 1 else 0) am"

definition compute_action_predictive_density :: "rng \<Rightarrow> bandit \<Rightarrow> nat \<Rightarrow> (error \<times> bandit) + bandit" where
  "compute_action_predictive_density g b t =
     (if prior_dist b \<noteq> ''beta'' then Inl (ValueError, b)
      else if reward_posterior_alpha b = [] \<or> reward_posterior_beta b = [] then Inl (IndexError, b)
      else
        let reward_params_samples =
              map (\<lambda>m. map (\<lambda>k. beta_rvs g (last (reward_posterior_alpha b))
                                     (last (reward_posterior_beta b)) t k m) [0..<K b]) [0..<M b];
            returns_expected_samples =
              (if reward_dist b = ''bernoulli'' then reward_params_samples
               else map (map (reward_mean b)) reward_params_samples)
        in case set_col (returns_expected b) t
                  (map (\<lambda>k. np_mean (map (\<lambda>c. c ! k) returns_expected_samples)) [0..<K b]) of
             Inl e \<Rightarrow> Inl (e, b)
           | Inr re \<Rightarrow>
               let b1 = b\<lparr>returns_expected := re\<rparr> in
               (case argmax_axis0 (K b) returns_expected_samples of
                  Inl e \<Rightarrow> Inl (e, b1)
                | Inr am \<Rightarrow>
                    (case set_col (actions_predictive_density_mean b1) t
                            (map (\<lambda>k. np_mean (indicator_row am k)) [0..<K b]) of
                       Inl e \<Rightarrow> Inl (e, b1)
                     | Inr mn \<Rightarrow>
                         let b2 = b1\<lparr>actions_predictive_density_mean := mn\<rparr> in
                         (case set_col (actions_predictive_density_var b2) t
                                 (map (\<lambda>k. np_var (indicator_row am k)) [0..<K b]) of
                            Inl e \<Rightarrow> Inl (e, b2)
                          | Inr vr \<Rightarrow> Inr (b2\<lparr>actions_predictive_density_var := vr\<rparr>)))))"

subsection \<open>update_reward_posterior\<close>

definition update_reward_posterior :: "bandit \<Rightarrow> nat \<Rightarrow> (error \<times> bandit) + bandit" where
  "update_reward_posterior b t =
     (if reward_dist b = ''bernoulli'' \<and> prior_dist b = ''beta'' then
        let s_t = row_sums_upto (K b) (returns b) t;
            n_t = row_sums_upto (K b) (actions b) t
        in case broadcast2 (+) (prior_alpha b) s_t of
             Inl e \<Rightarrow> Inl (e, b)
           | Inr a \<Rightarrow>
               let b1 = b\<lparr>reward_posterior_alpha := reward_posterior_alpha b @ [a]\<rparr> in
               (case broadcast2 (+) (prior_beta b) (map2 (-) n_t s_t) of
                  Inl e \<Rightarrow> Inl (e, b1)
                | Inr c \<Rightarrow> Inr (b1\<lparr>reward_posterior_beta := reward_posterior_beta b1 @ [c]\<rparr>))
      else Inl (ValueError, b))"

subsection \<open>execute\<close>

text \<open>The number of samples at time \<open>t\<close> (the \<^verbatim>\<open>if/elif\<close> chain on
  \<^verbatim>\<open>self.sampling['type']\<close>), before it is stored in \<^verbatim>\<open>self.n_samples[t]\<close>.\<close>

definition knob :: "real option \<Rightarrow> error + real" where
  "knob v = (case v of None \<Rightarrow> Inl KeyError | Some x \<Rightarrow> Inr x)"

text \<open>\<^verbatim>\<open>a[a_mean[:,t].argmax(), t]\<close>: the entry of \<open>a\<close> at the most probable arm.\<close>

definition at_argmax_mean :: "bandit \<Rightarrow> npfloat array2 \<Rightarrow> nat \<Rightarrow> error + npfloat" where
  "at_argmax_mean b a t =
     (case get_col (actions_predictive_density_mean b) t of
        Inl e \<Rightarrow> Inl e
      | Inr col \<Rightarrow> (case argmax np_gt col of Inl e \<Rightarrow> Inl e | Inr k \<Rightarrow> get_elem a k t))"

definition sampling_n_samples_at :: "bandit \<Rightarrow> nat \<Rightarrow> error + npfloat" where
  "sampling_n_samples_at b t =
     (let ty = sampling_type (sampling b) in
      if ty = ''static'' then
        (case knob (sampling_n_samples (sampling b)) of Inl e \<Rightarrow> Inl e | Inr n \<Rightarrow> Inr (Fin n))
      else if ty = ''linear'' then
        (case knob (sampling_n_0 (sampling b)) of
           Inl e \<Rightarrow> Inl e
         | Inr n0 \<Rightarrow> (case knob (sampling_n (sampling b)) of
                        Inl e \<Rightarrow> Inl e
                      | Inr n \<Rightarrow> Inr (np_maximum (Fin (n0 + n * real t)) (Fin 1))))
      else if ty = ''logT'' then Inr (np_maximum (np_log t) (Fin 1))
      else if ty = ''sqrtT'' then Inr (np_maximum (np_sqrt t) (Fin 1))
      else if ty = ''invVar'' then
        (case at_argmax_mean b (actions_predictive_density_var b) t of
           Inl e \<Rightarrow> Inl e
         | Inr v \<Rightarrow> (case knob (sampling_n_max (sampling b)) of
                       Inl e \<Rightarrow> Inl e
                     | Inr n_max \<Rightarrow> Inr (np_minimum (np_maximum (np_recip v) (Fin 1)) (Fin n_max))))
      else if ty = ''invPFA'' then
        (case at_argmax_mean b (actions_predictive_density_mean b) t of
           Inl e \<Rightarrow> Inl e
         | Inr p \<Rightarrow> (case knob (sampling_n_max (sampling b)) of
                       Inl e \<Rightarrow> Inl e
                     | Inr n_max \<Rightarrow>
                         Inr (np_minimum (np_maximum (np_recip (np_one_minus p)) (Fin 1)) (Fin n_max))))
      else if ty = ''argMax'' then Inr PInf
      else Inl ValueError)"

text \<open>\<^verbatim>\<open>np.random.multinomial(1, pvals, size=n)\<close>: \<open>n\<close> one-hot rows, held as the list of
  the arms drawn. A negative size raises, and so do probabilities that are nan, outside
  \<open>[0, 1]\<close>, or whose sum without the last one exceeds 1.\<close>

definition valid_pvals :: "npfloat list \<Rightarrow> bool" where
  "valid_pvals p =
     (list_all (\<lambda>x. case x of Fin r \<Rightarrow> 0 \<le> r \<and> r \<le> 1 | _ \<Rightarrow> False) p
      \<and> sum_list (map (\<lambda>x. case x of Fin r \<Rightarrow> r | _ \<Rightarrow> 0) (butlast p)) \<le> 1)"

definition np_random_multinomial :: "rng \<Rightarrow> npfloat list \<Rightarrow> nat \<Rightarrow> int \<Rightarrow> error + nat list" where
  "np_random_multinomial g p t n =
     (if n < 0 then Inl ValueError
      else if \<not> valid_pvals p then Inl ValueError
      else Inr (map (multinomial g p t) [0..<nat n]))"

text \<open>\<^verbatim>\<open>.sum(axis=0)\<close> of the one-hot rows: the number of votes of each arm.\<close>

definition tally :: "nat \<Rightarrow> nat list \<Rightarrow> nat list" where
  "tally k votes = map (\<lambda>a. length (filter (\<lambda>v. v = a) votes)) [0..<k]"

text \<open>\<^verbatim>\<open>np.random.multinomial(1, mean[:,t], size=int(self.n_samples[t]))\<close>
  of line 140: the votes drawn at time \<open>t\<close>.\<close>

definition draw_votes :: "rng \<Rightarrow> bandit \<Rightarrow> nat \<Rightarrow> error + nat list" where
  "draw_votes g b t =
     (case get_col (actions_predictive_density_mean b) t of
        Inl e \<Rightarrow> Inl e
      | Inr pvals \<Rightarrow>
          (case py_int (n_samples b ! t) of
             Inl e \<Rightarrow> Inl e
           | Inr n \<Rightarrow> np_random_multinomial g pvals t n))"

text \<open>"Pick next action" (lines 134 to 141). With \<^verbatim>\<open>n_samples[t] == np.inf\<close> the code
  indexes the dictionary \<^verbatim>\<open>self.actions_predictive_density\<close> with \<^verbatim>\<open>[:,t]\<close>, which
  raises TypeError (a slice is not hashable) before anything is written.\<close>

definition pick_action :: "rng \<Rightarrow> bandit \<Rightarrow> nat \<Rightarrow> (error \<times> bandit) + (bandit \<times> nat)" where
  "pick_action g b t =
     (if \<not> t < length (n_samples b) then Inl (IndexError, b)
      else if n_samples b ! t = PInf then Inl (TypeError, b)
      else
        (case draw_votes g b t of
           Inl e \<Rightarrow> Inl (e, b)
         | Inr votes \<Rightarrow>
        (case argmax (>) (tally (length (actions_predictive_density_mean b ! t)) votes) of
           Inl e \<Rightarrow> Inl (e, b)
         | Inr a \<Rightarrow>
        (case set_elem (actions b) a t 1 of
           Inl e \<Rightarrow> Inl (e, b)
         | Inr acts \<Rightarrow>
             let b1 = b\<lparr>actions := acts\<rparr> in
             (case first_index (\<lambda>x. x = 1) (acts ! t) of
                None \<Rightarrow> Inl (IndexError, b1)
              | Some action \<Rightarrow> Inr (b1, action))))))"

text \<open>One iteration of the loop of \<^verbatim>\<open>execute\<close>.\<close>

definition execute_step :: "rng \<Rightarrow> bandit \<Rightarrow> nat \<Rightarrow> (error \<times> bandit) + bandit" where
  "execute_step g b t =
     (case compute_action_predictive_density g b t of
        Inl eb \<Rightarrow> Inl eb
      | Inr b1 \<Rightarrow>
     (case sampling_n_samples_at b1 t of
        Inl e \<Rightarrow> Inl (e, b1)
      | Inr n \<Rightarrow>
          if \<not> t < length (n_samples b1) then Inl (IndexError, b1)
          else
            let b2 = b1\<lparr>n_samples := (n_samples b1)[t := n]\<rparr> in
            (case pick_action g b2 t of
               Inl eb \<Rightarrow> Inl eb
             | Inr (b3, action) \<Rightarrow>
                 (case set_elem (returns b3) action t (reward_rvs g t action) of
                    Inl e \<Rightarrow> Inl (e, b3)
                  | Inr rets \<Rightarrow> update_reward_posterior (b3\<lparr>returns := rets\<rparr>) t))))"

fun execute_loop :: "rng \<Rightarrow> bandit \<Rightarrow> nat list \<Rightarrow> (error \<times> bandit) + bandit" where
  "execute_loop g b [] = Inr b"
| "execute_loop g b (t # ts) =
     (case execute_step g b t of Inl eb \<Rightarrow> Inl eb | Inr b' \<Rightarrow> execute_loop g b' ts)"

text \<open>The allocation at the head of \<^verbatim>\<open>execute\<close>.\<close>

definition execute_allocate :: "bandit \<Rightarrow> nat \<Rightarrow> bandit" where
  "execute_allocate b t_max =
     b\<lparr>actions_predictive_density_mean := zeros2 (K b) t_max (Fin 0),
       actions_predictive_density_var := zeros2 (K b) t_max (Fin 0),
       actions := zeros2 (K b) t_max 0,
       returns := zeros2 (K b) t_max 0,
       returns_expected := zeros2 (K b) t_max (Fin 0),
       n_samples := replicate t_max (Fin 1)\<rparr>"

definition execute :: "rng \<Rightarrow> bandit \<Rightarrow> nat \<Rightarrow> (error \<times> bandit) + bandit" where
  "execute g b t_max = execute_loop g (execute_allocate b t_max) [0..<t_max]"

text \<open>The object as the caller finds it after the call, whether it returned or raised.\<close>

definition final_state :: "(error \<times> bandit) + bandit \<Rightarrow> bandit" where
  "final_state r = (case r of Inl (e, b) \<Rightarrow> b | Inr b \<Rightarrow> b)"

subsection \<open>Well-formed states and sample inputs\<close>

text \<open>The shape of an array allocated by \<^verbatim>\<open>np.zeros((k, n))\<close>.\<close>

definition shape2 :: "nat \<Rightarrow> nat \<Rightarrow> 'a array2 \<Rightarrow> bool" where
  "shape2 k n a = (length a = n \<and> (\<forall>c \<in> set a. length c = k))"

text \<open>The object holds the arrays of a run over \<open>t_max\<close> time instants.\<close>

definition allocated :: "bandit \<Rightarrow> nat \<Rightarrow> bool" where
  "allocated b t_max =
     (shape2 (K b) t_max (actions_predictive_density_mean b)
      \<and> shape2 (K b) t_max (actions_predictive_density_var b)
      \<and> shape2 (K b) t_max (actions b)
      \<and> shape2 (K b) t_max (returns b)
      \<and> shape2 (K b) t_max (returns_expected b)
      \<and> length (n_samples b) = t_max)"

text \<open>A two-armed Bernoulli bandit with a \<open>Beta(1,1)\<close> prior and two Monte Carlo draws,
  and one table of random outcomes: arm \<open>0\<close> wins the first parameter draw and arm \<open>1\<close>
  the second, the first vote goes to arm \<open>0\<close> and all later ones to arm \<open>1\<close>, and every
  reward is a success.\<close>

definition example_rng :: rng where
  "example_rng =
     \<lparr>beta_rvs = (\<lambda>a b t k m. if k = m mod 2 then 3 / 4 else 1 / 4),
      multinomial = (\<lambda>p t i. if i = 0 then 0 else 1),
      reward_rvs = (\<lambda>t k. 1)\<rparr>"

definition example_sampling :: "string \<Rightarrow> real \<Rightarrow> sampling_cfg" where
  "example_sampling ty c =
     \<lparr>sampling_type = ty, sampling_n_samples = Some c, sampling_n_0 = Some 1,
      sampling_n = Some 1, sampling_n_max = Some c\<rparr>"

definition example_bandit :: "string \<Rightarrow> real \<Rightarrow> bandit" where
  "example_bandit ty c =
     init 2 ''bernoulli'' (\<lambda>x. x) ''beta'' [1, 1] [1, 1] (example_sampling ty c) 2"

text \<open>The configuration of the object, which no method writes.\<close>

definition same_config :: "bandit \<Rightarrow> bandit \<Rightarrow> bool" where
  "same_config b b' =
     (K b' = K b \<and> reward_dist b' = reward_dist b \<and> reward_mean b' = reward_mean b
      \<and> prior_dist b' = prior_dist b \<and> prior_alpha b' = prior_alpha b
      \<and> prior_beta b' = prior_beta b \<and> sampling b' = sampling b \<and> M b' = M b)"

text \<open>The state after the first \<open>m\<close> iterations of the loop of a run over \<open>t_max\<close> instants
  that started from \<open>b0\<close>: the configuration is that of \<open>b0\<close>; the arrays keep their shape;
  one snapshot was appended per iteration; column \<open>t < m\<close> of the action record is one-hot
  at some arm, and the return record holds that arm's reward there and zero elsewhere;
  the columns from \<open>m\<close> on are still zero; and the snapshot of iteration \<open>t\<close> is the sum
  of the prior and the row sums through \<open>t\<close>.\<close>

definition run_inv :: "rng \<Rightarrow> bandit \<Rightarrow> nat \<Rightarrow> nat \<Rightarrow> bandit \<Rightarrow> bool" where
  "run_inv g b0 t_max m b =
     (same_config b0 b \<and> allocated b t_max
      \<and> length (reward_posterior_alpha b) = length (reward_posterior_alpha b0) + m
      \<and> length (reward_posterior_beta b) = length (reward_posterior_beta b0) + m
      \<and> take (length (reward_posterior_alpha b0)) (reward_posterior_alpha b) = reward_posterior_alpha b0
      \<and> take (length (reward_posterior_beta b0)) (reward_posterior_beta b) = reward_posterior_beta b0
      \<and> (\<forall>t<m. \<exists>a<K b0. actions b ! t = (replicate (K b0) 0)[a := 1]
                  \<and> returns b ! t = (replicate (K b0) 0)[a := reward_rvs g t a])
      \<and> (\<forall>t. m \<le> t \<and> t < t_max \<longrightarrow>
             actions b ! t = replicate (K b0) 0 \<and> returns b ! t = replicate (K b0) 0)
      \<and> (\<forall>t<m. broadcast2 (+) (prior_alpha b0) (row_sums_upto (K b0) (returns b) t)
                  = Inr (reward_posterior_alpha b ! (length (reward_posterior_alpha b0) + t))
              \<and> broadcast2 (+) (prior_beta b0)
                    (map2 (-) (row_sums_upto (K b0) (actions b) t) (row_sums_upto (K b0) (returns b) t))
                  = Inr (reward_posterior_beta b ! (length (reward_posterior_beta b0) + t))))"

section \<open>Properties\<close>

subsection \<open>argmax and the statistics of indicator rows\<close>

lemma argmax_from_bound:
  "bi < i \<Longrightarrow> argmax_from gt bi bv i xs < i + length xs"
proof (induction xs arbitrary: bi bv i)
  case Nil
  then show ?case by simp
next
  case (Cons x xs)
  have "argmax_from gt i x (Suc i) xs < Suc i + length xs"
    by (rule Cons.IH) simp
  moreover have "argmax_from gt bi bv (Suc i) xs < Suc i + length xs"
    by (rule Cons.IH) (use Cons.prems in simp)
  ultimately show ?case by simp
qed

lemma argmax_Inr_less:
  "argmax gt xs = Inr a \<Longrightarrow> a < length xs"
  using argmax_from_bound[of 0 1 gt]
  by (auto simp: argmax_def split: list.splits)

lemma argmax_nonempty:
  "xs \<noteq> [] \<Longrightarrow> \<exists>a. argmax gt xs = Inr a \<and> a < length xs"
  using argmax_Inr_less[of gt xs] by (cases xs) (auto simp: argmax_def)

lemma collect_argmax:
  "\<forall>c \<in> set cols. length c = k \<Longrightarrow> 0 < k \<Longrightarrow>
   \<exists>am. collect (map (argmax gt) cols) = Inr am \<and> length am = length cols \<and> (\<forall>a \<in> set am. a < k)"
proof (induction cols)
  case Nil
  then show ?case by simp
next
  case (Cons c cols)
  then obtain am where am: "collect (map (argmax gt) cols) = Inr am" "length am = length cols"
    "\<forall>a \<in> set am. a < k" by auto
  from Cons.prems have "c \<noteq> []" by auto
  then obtain a where "argmax gt c = Inr a" "a < length c" using argmax_nonempty by blast
  with am Cons.prems show ?case by auto
qed

lemma sum_indicator_single:
  "a < k \<Longrightarrow> (\<Sum>i\<leftarrow>[0..<k]. if a = i then (1::real) else 0) = 1"
  by (simp add: interv_sum_list_conv_sum_set_nat)

lemma sum_list_indicator_rows:
  "\<forall>a \<in> set am. a < k \<Longrightarrow>
   (\<Sum>i\<leftarrow>[0..<k]. sum_list (indicator_row am i)) = real (length am)"
proof (induction am)
  case Nil
  then show ?case by (simp add: indicator_row_def)
next
  case (Cons a am)
  have "(\<Sum>i\<leftarrow>[0..<k]. sum_list (indicator_row (a # am) i))
      = (\<Sum>i\<leftarrow>[0..<k]. (if a = i then 1 else 0) + sum_list (indicator_row am i))"
    by (simp add: indicator_row_def)
  also have "\<dots> = (\<Sum>i\<leftarrow>[0..<k]. if a = i then 1 else 0)
      + (\<Sum>i\<leftarrow>[0..<k]. sum_list (indicator_row am i))"
    by (simp add: sum_list_addf)
  finally show ?case using Cons by (simp add: sum_indicator_single)
qed

lemma indicator_row_01: "x \<in> set (indicator_row am k) \<Longrightarrow> x = 0 \<or> x = 1"
  by (auto simp: indicator_row_def)

lemma sum_list_01_bounds:
  "\<forall>x \<in> set xs. x = 0 \<or> x = (1::real) \<Longrightarrow> 0 \<le> sum_list xs \<and> sum_list xs \<le> real (length xs)"
  by (induction xs) auto

lemma sum_sq_dev_01:
  "\<forall>x \<in> set xs. x = 0 \<or> x = (1::real) \<Longrightarrow>
   (\<Sum>x\<leftarrow>xs. (x - c)\<^sup>2) = sum_list xs - 2 * c * sum_list xs + real (length xs) * c\<^sup>2"
  by (induction xs) (auto simp: power2_eq_square algebra_simps)

lemma var_01:
  assumes "\<forall>x \<in> set xs. x = 0 \<or> x = (1::real)" "xs \<noteq> []"
  shows "mean_list (map (\<lambda>x. (x - mean_list xs)\<^sup>2) xs) = mean_list xs * (1 - mean_list xs)"
proof -
  let ?n = "real (length xs)"
  have n: "?n \<noteq> 0" using assms(2) by simp
  have "(\<Sum>x\<leftarrow>xs. (x - mean_list xs)\<^sup>2)
      = sum_list xs - 2 * mean_list xs * sum_list xs + ?n * (mean_list xs)\<^sup>2"
    using sum_sq_dev_01[OF assms(1)] by simp
  then show ?thesis using n
    by (simp add: mean_list_def power2_eq_square field_simps)
qed

lemma mean_01_bounds:
  assumes "\<forall>x \<in> set xs. x = 0 \<or> x = (1::real)" "xs \<noteq> []"
  shows "0 \<le> mean_list xs \<and> mean_list xs \<le> 1"
  using sum_list_01_bounds[OF assms(1)] assms(2)
  by (simp add: mean_list_def divide_le_eq)

lemma quarter_bound: "(m::real) * (1 - m) \<le> 1 / 4"
proof -
  have "0 \<le> (m - 1 / 2)\<^sup>2" by simp
  then show ?thesis by (simp add: power2_eq_square algebra_simps)
qed

subsection \<open>Array shapes\<close>

lemma shape2_nth: "shape2 k n a \<Longrightarrow> t < n \<Longrightarrow> length (a ! t) = k"
  by (simp add: shape2_def)

lemma shape2_update: "shape2 k n a \<Longrightarrow> length v = k \<Longrightarrow> shape2 k n (a[t := v])"
  by (auto simp: shape2_def dest: set_update_subset_insert[THEN subsetD])

lemma set_col_shape2:
  "shape2 k n a \<Longrightarrow> t < n \<Longrightarrow> length v = k \<Longrightarrow> set_col a t v = Inr (a[t := v])"
  by (simp add: set_col_def shape2_def)

subsection \<open>The Monte Carlo estimator\<close>

lemma compute_action_predictive_density_succeeds:
  assumes prior: "prior_dist b = ''beta''"
    and post: "reward_posterior_alpha b \<noteq> []" "reward_posterior_beta b \<noteq> []"
    and k: "0 < K b"
    and re: "shape2 (K b) n (returns_expected b)"
    and mn: "shape2 (K b) n (actions_predictive_density_mean b)"
    and vr: "shape2 (K b) n (actions_predictive_density_var b)"
    and t: "t < n"
  shows "\<exists>am re. length am = M b \<and> (\<forall>a \<in> set am. a < K b) \<and> length re = K b \<and>
    compute_action_predictive_density g b t =
      Inr (b\<lparr>returns_expected := (returns_expected b)[t := re],
             actions_predictive_density_mean :=
               (actions_predictive_density_mean b)[t := map (\<lambda>k. np_mean (indicator_row am k)) [0..<K b]],
             actions_predictive_density_var :=
               (actions_predictive_density_var b)[t := map (\<lambda>k. np_var (indicator_row am k)) [0..<K b]]\<rparr>)"
proof -
  define samples where "samples =
     (let reward_params_samples =
              map (\<lambda>m. map (\<lambda>k. beta_rvs g (last (reward_posterior_alpha b))
                                     (last (reward_posterior_beta b)) t k m) [0..<K b]) [0..<M b]
      in (if reward_dist b = ''bernoulli'' then reward_params_samples
               else map (map (reward_mean b)) reward_params_samples))"
  have len: "length samples = M b" and cols: "\<forall>c \<in> set samples. length c = K b"
    by (auto simp: samples_def Let_def)
  obtain am where am: "collect (map (argmax (>)) samples) = Inr am" "length am = length samples"
    "\<forall>a \<in> set am. a < K b"
    using collect_argmax[OF cols k] by blast
  define re' where "re' = map (\<lambda>k. np_mean (map (\<lambda>c. c ! k) samples)) [0..<K b]"
  have s1: "set_col (returns_expected b) t re' = Inr ((returns_expected b)[t := re'])"
    by (rule set_col_shape2[OF re t]) (simp add: re'_def)
  have s2: "set_col (actions_predictive_density_mean b) t (map (\<lambda>k. np_mean (indicator_row am k)) [0..<K b])
     = Inr ((actions_predictive_density_mean b)[t := map (\<lambda>k. np_mean (indicator_row am k)) [0..<K b]])"
    by (rule set_col_shape2[OF mn t]) simp
  have s3: "set_col (actions_predictive_density_var b) t (map (\<lambda>k. np_var (indicator_row am k)) [0..<K b])
     = Inr ((actions_predictive_density_var b)[t := map (\<lambda>k. np_var (indicator_row am k)) [0..<K b]])"
    by (rule set_col_shape2[OF vr t]) simp
  have "compute_action_predictive_density g b t =
      Inr (b\<lparr>returns_expected := (returns_expected b)[t := re'],
             actions_predictive_density_mean :=
               (actions_predictive_density_mean b)[t := map (\<lambda>k. np_mean (indicator_row am k)) [0..<K b]],
             actions_predictive_density_var :=
               (actions_predictive_density_var b)[t := map (\<lambda>k. np_var (indicator_row am k)) [0..<K b]]\<rparr>)"
    using prior post k s1 s2 s3 am(1)
    unfolding compute_action_predictive_density_def argmax_axis0_def samples_def re'_def Let_def
    by simp
  moreover have "length re' = K b" by (simp add: re'_def)
  ultimately show ?thesis using am(2,3) len by metis
qed

subsection \<open>Sample inputs, unfolded\<close>

lemmas example_defs = example_rng_def example_sampling_def example_bandit_def init_def
  execute_allocate_def zeros2_def allocated_def shape2_def

lemmas run_defs = execute_def execute_step_def
  compute_action_predictive_density_def update_reward_posterior_def pick_action_def draw_votes_def
  sampling_n_samples_at_def at_argmax_mean_def knob_def np_random_multinomial_def valid_pvals_def tally_def
  argmax_axis0_def indicator_row_def argmax_def get_col_def set_col_def get_elem_def set_elem_def
  row_sums_upto_def broadcast2_def np_mean_def np_var_def mean_list_def np_gt_def np_log_def np_sqrt_def
  final_state_def Let_def upt_rec numeral_2_eq_2

subsection \<open>The sampling budget at time zero\<close>

text \<open>Claim C9. In the sampling modes \<open>logT\<close> and \<open>sqrtT\<close> the number of samples computed at
  \<open>t = 0\<close> is the floor value 1 and the computation raises nothing: \<open>log 0 = -inf\<close> and
  \<open>sqrt 0 = 0\<close> are both lifted to 1 by \<^verbatim>\<open>np.maximum\<close>.\<close>

theorem budget_at_time_zero: 
  "sampling_type (sampling b) = ''logT'' \<or> sampling_type (sampling b) = ''sqrtT''
   \<Longrightarrow> sampling_n_samples_at b 0 = Inr (Fin 1)"
  by (auto simp: sampling_n_samples_at_def np_log_def np_sqrt_def)

theorem budget_at_time_zero_witness:
  "sampling_n_samples_at (example_bandit ''logT'' 1) 0 = Inr (Fin 1)
   \<and> sampling_n_samples_at (example_bandit ''sqrtT'' 1) 0 = Inr (Fin 1)"
  using budget_at_time_zero[of "example_bandit ''logT'' 1"] budget_at_time_zero[of "example_bandit ''sqrtT'' 1"]
  by (simp add: example_defs)

subsection \<open>The predictive density of the Monte Carlo estimator\<close>

lemma sum_list_divide:
  "(\<Sum>x\<leftarrow>xs. f x / (c::real)) = (\<Sum>x\<leftarrow>xs. f x) / c"
  by (induction xs) (simp_all add: add_divide_distrib)

text \<open>Claim C5. With a Beta prior, at least one arm and \<open>M \<ge> 1\<close> parameter draws, on the
  arrays of a run, the estimator returns, and the column of predictive means it writes at
  \<open>t\<close> consists of \<open>K\<close> non-negative numbers that sum to 1.\<close>

theorem predictive_mean_distribution:
  assumes "prior_dist b = ''beta''"
    and "reward_posterior_alpha b \<noteq> []" and "reward_posterior_beta b \<noteq> []"
    and "0 < K b" and "1 \<le> M b" and "allocated b t_max" and "t < t_max"
  shows "\<exists>b' ps. compute_action_predictive_density g b t = Inr b'
      \<and> actions_predictive_density_mean b' ! t = map Fin ps
      \<and> length ps = K b \<and> (\<forall>p \<in> set ps. 0 \<le> p) \<and> sum_list ps = 1"
proof -
  from assms(6) have sh: "shape2 (K b) t_max (returns_expected b)"
    "shape2 (K b) t_max (actions_predictive_density_mean b)"
    "shape2 (K b) t_max (actions_predictive_density_var b)"
    by (simp_all add: allocated_def)
  obtain am re where am: "length am = M b" "\<forall>a \<in> set am. a < K b"
    and run: "compute_action_predictive_density g b t =
      Inr (b\<lparr>returns_expected := (returns_expected b)[t := re],
             actions_predictive_density_mean :=
               (actions_predictive_density_mean b)[t := map (\<lambda>k. np_mean (indicator_row am k)) [0..<K b]],
             actions_predictive_density_var :=
               (actions_predictive_density_var b)[t := map (\<lambda>k. np_var (indicator_row am k)) [0..<K b]]\<rparr>)"
    using compute_action_predictive_density_succeeds[OF assms(1-4) sh assms(7), of g] by blast
  define ps where "ps = map (\<lambda>k. mean_list (indicator_row am k)) [0..<K b]"
  have ne: "indicator_row am k \<noteq> []" for k
    using am(1) assms(5) by (auto simp: indicator_row_def)
  have col: "map (\<lambda>k. np_mean (indicator_row am k)) [0..<K b] = map Fin ps"
    by (simp add: ps_def np_mean_def ne)
  have tl: "t < length (actions_predictive_density_mean b)"
    using sh(2) assms(7) by (simp add: shape2_def)
  have nonneg: "\<forall>p \<in> set ps. 0 \<le> p"
    using mean_01_bounds[OF _ ne] indicator_row_01 by (fastforce simp: ps_def)
  have "sum_list ps = (\<Sum>k\<leftarrow>[0..<K b]. sum_list (indicator_row am k)) / real (M b)"
    proof -
    have "length (indicator_row am k) = M b" for k by (simp add: indicator_row_def am(1))
    then show ?thesis by (simp add: ps_def mean_list_def sum_list_divide o_def)
  qed
  also have "\<dots> = 1"
    using sum_list_indicator_rows[OF am(2)] am(1) assms(5) by simp
  finally have one: "sum_list ps = 1" .
  have len: "length ps = K b" by (simp add: ps_def)
  show ?thesis
    unfolding run col
    by (intro exI conjI) (rule refl, simp add: tl, rule len, rule nonneg, rule one)
qed


theorem predictive_mean_distribution_witness:
  "prior_dist (execute_allocate (example_bandit ''static'' 1) 1) = ''beta''
   \<and> reward_posterior_alpha (execute_allocate (example_bandit ''static'' 1) 1) \<noteq> []
   \<and> reward_posterior_beta (execute_allocate (example_bandit ''static'' 1) 1) \<noteq> []
   \<and> 0 < K (execute_allocate (example_bandit ''static'' 1) 1)
   \<and> 1 \<le> M (execute_allocate (example_bandit ''static'' 1) 1)
   \<and> allocated (execute_allocate (example_bandit ''static'' 1) 1) 1
   \<and> (0::nat) < 1
   \<and> (\<exists>b' ps. compute_action_predictive_density example_rng
                 (execute_allocate (example_bandit ''static'' 1) 1) 0 = Inr b'
      \<and> actions_predictive_density_mean b' ! 0 = map Fin ps
      \<and> length ps = K (execute_allocate (example_bandit ''static'' 1) 1)
      \<and> (\<forall>p \<in> set ps. 0 \<le> p) \<and> sum_list ps = 1)"
proof -
  let ?b = "execute_allocate (example_bandit ''static'' 1) 1"
  have h: "prior_dist ?b = ''beta''" "reward_posterior_alpha ?b \<noteq> []"
    "reward_posterior_beta ?b \<noteq> []" "0 < K ?b" "1 \<le> M ?b" "allocated ?b 1" "(0::nat) < 1"
    by (simp_all add: example_defs)
  from predictive_mean_distribution[OF h, of example_rng] h show ?thesis by blast
qed

text \<open>Claim C10. With a Beta prior, at least one arm and \<open>M \<ge> 1\<close> parameter draws, on the
  arrays of a run, the estimator returns, and every predictive variance it writes at
  \<open>(k, t)\<close> is \<open>m * (1 - m)\<close> for the predictive mean \<open>m\<close> it writes at \<open>(k, t)\<close>, and so lies
  between 0 and 1/4.\<close>

theorem predictive_var_mean:
  assumes "prior_dist b = ''beta''"
    and "reward_posterior_alpha b \<noteq> []" and "reward_posterior_beta b \<noteq> []"
    and "0 < K b" and "1 \<le> M b" and "allocated b t_max" and "t < t_max"
  shows "\<exists>b'. compute_action_predictive_density g b t = Inr b'
      \<and> (\<forall>k < K b. \<exists>m v. actions_predictive_density_mean b' ! t ! k = Fin m
            \<and> actions_predictive_density_var b' ! t ! k = Fin v
            \<and> v = m * (1 - m) \<and> 0 \<le> v \<and> v \<le> 1 / 4)"
proof -
  from assms(6) have sh: "shape2 (K b) t_max (returns_expected b)"
    "shape2 (K b) t_max (actions_predictive_density_mean b)"
    "shape2 (K b) t_max (actions_predictive_density_var b)"
    by (simp_all add: allocated_def)
  obtain am re where am: "length am = M b" "\<forall>a \<in> set am. a < K b"
    and run: "compute_action_predictive_density g b t =
      Inr (b\<lparr>returns_expected := (returns_expected b)[t := re],
             actions_predictive_density_mean :=
               (actions_predictive_density_mean b)[t := map (\<lambda>k. np_mean (indicator_row am k)) [0..<K b]],
             actions_predictive_density_var :=
               (actions_predictive_density_var b)[t := map (\<lambda>k. np_var (indicator_row am k)) [0..<K b]]\<rparr>)"
    using compute_action_predictive_density_succeeds[OF assms(1-4) sh assms(7), of g] by blast
  have tl: "t < length (actions_predictive_density_mean b)"
    "t < length (actions_predictive_density_var b)"
    using sh assms(7) by (simp_all add: shape2_def)
  have ne: "indicator_row am k \<noteq> []" for k
    using am(1) assms(5) by (auto simp: indicator_row_def)
  have "\<exists>m v. np_mean (indicator_row am k) = Fin m \<and> np_var (indicator_row am k) = Fin v
            \<and> v = m * (1 - m) \<and> 0 \<le> v \<and> v \<le> 1 / 4" for k
  proof -
    let ?xs = "indicator_row am k"
    have b01: "\<forall>x \<in> set ?xs. x = 0 \<or> x = 1" using indicator_row_01 by blast
    have v: "mean_list (map (\<lambda>x. (x - mean_list ?xs)\<^sup>2) ?xs) = mean_list ?xs * (1 - mean_list ?xs)"
      by (rule var_01[OF b01 ne])
    have "0 \<le> mean_list ?xs \<and> mean_list ?xs \<le> 1" by (rule mean_01_bounds[OF b01 ne])
    then have "0 \<le> mean_list ?xs * (1 - mean_list ?xs)" by simp
    with v quarter_bound[of "mean_list ?xs"] show ?thesis
      by (simp add: np_mean_def np_var_def ne)
  qed
  then show ?thesis unfolding run using tl by simp
qed

theorem predictive_var_mean_witness:
  "prior_dist (execute_allocate (example_bandit ''invVar'' 1) 1) = ''beta''
   \<and> reward_posterior_alpha (execute_allocate (example_bandit ''invVar'' 1) 1) \<noteq> []
   \<and> reward_posterior_beta (execute_allocate (example_bandit ''invVar'' 1) 1) \<noteq> []
   \<and> 0 < K (execute_allocate (example_bandit ''invVar'' 1) 1)
   \<and> 1 \<le> M (execute_allocate (example_bandit ''invVar'' 1) 1)
   \<and> allocated (execute_allocate (example_bandit ''invVar'' 1) 1) 1
   \<and> (0::nat) < 1
   \<and> (\<exists>b'. compute_action_predictive_density example_rng
                 (execute_allocate (example_bandit ''invVar'' 1) 1) 0 = Inr b'
      \<and> (\<exists>m v. actions_predictive_density_mean b' ! 0 ! 1 = Fin m
            \<and> actions_predictive_density_var b' ! 0 ! 1 = Fin v
            \<and> v = m * (1 - m) \<and> 0 \<le> v \<and> v \<le> 1 / 4))"
proof -
  let ?b = "execute_allocate (example_bandit ''invVar'' 1) 1"
  have h: "prior_dist ?b = ''beta''" "reward_posterior_alpha ?b \<noteq> []"
    "reward_posterior_beta ?b \<noteq> []" "0 < K ?b" "1 \<le> M ?b" "allocated ?b 1" "(0::nat) < 1"
    by (simp_all add: example_defs)
  have k: "1 < K ?b" by (simp add: example_defs)
  from predictive_var_mean[OF h, of example_rng] k h show ?thesis by blast
qed

subsection \<open>The sampling budget of the inverse modes\<close>

lemma floor_then_cap:
  "v \<noteq> NaN \<Longrightarrow>
   \<exists>n. np_minimum (np_maximum (np_recip v) (Fin 1)) (Fin c) = Fin n \<and> n \<le> c \<and> min 1 c \<le> n"
  by (cases v) auto

text \<open>Claim C8. In the modes \<open>invVar\<close> and \<open>invPFA\<close>, with a cap \<open>n_max \<ge> 1\<close>, once the
  estimator has run with \<open>M \<ge> 1\<close> the number of samples computed at \<open>t\<close> is a finite number
  \<open>n\<close> with \<open>1 \<le> n \<le> n_max\<close>; a variance of 0 in \<open>invVar\<close> and a mean of 1 in \<open>invPFA\<close>
  give \<open>1/0 = inf\<close>, which the cap turns into \<open>n_max\<close>.\<close>

theorem budget_cap_and_floor:
  assumes "prior_dist b = ''beta''"
    and "reward_posterior_alpha b \<noteq> []" and "reward_posterior_beta b \<noteq> []"
    and "0 < K b" and "1 \<le> M b" and "allocated b t_max" and "t < t_max"
    and "sampling_type (sampling b) = ''invVar'' \<or> sampling_type (sampling b) = ''invPFA''"
    and "sampling_n_max (sampling b) = Some c" and "1 \<le> c"
  shows "\<exists>b1 n. compute_action_predictive_density g b t = Inr b1
      \<and> sampling_n_samples_at b1 t = Inr (Fin n) \<and> 1 \<le> n \<and> n \<le> c"
proof -
  from assms(6) have sh: "shape2 (K b) t_max (returns_expected b)"
    "shape2 (K b) t_max (actions_predictive_density_mean b)"
    "shape2 (K b) t_max (actions_predictive_density_var b)"
    by (simp_all add: allocated_def)
  obtain am re where am: "length am = M b" "\<forall>a \<in> set am. a < K b"
    and run: "compute_action_predictive_density g b t =
      Inr (b\<lparr>returns_expected := (returns_expected b)[t := re],
             actions_predictive_density_mean :=
               (actions_predictive_density_mean b)[t := map (\<lambda>k. np_mean (indicator_row am k)) [0..<K b]],
             actions_predictive_density_var :=
               (actions_predictive_density_var b)[t := map (\<lambda>k. np_var (indicator_row am k)) [0..<K b]]\<rparr>)"
      (is "_ = Inr ?b1")
    using compute_action_predictive_density_succeeds[OF assms(1-4) sh assms(7), of g] by blast
  have tl: "t < length (actions_predictive_density_mean b)"
    "t < length (actions_predictive_density_var b)"
    using sh assms(7) by (simp_all add: shape2_def)
  have ne: "indicator_row am k \<noteq> []" for k
    using am(1) assms(5) by (auto simp: indicator_row_def)
  let ?col = "map (\<lambda>k. np_mean (indicator_row am k)) [0..<K b]"
  have "?col \<noteq> []" using assms(4) by simp
  then obtain k where k: "argmax np_gt ?col = Inr k" "k < length ?col"
    using argmax_nonempty by blast
  then have kK: "k < K b" by simp
  have mean_k: "actions_predictive_density_mean ?b1 ! t ! k = Fin (mean_list (indicator_row am k))"
    using tl kK by (simp add: np_mean_def ne)
  have var_k: "actions_predictive_density_var ?b1 ! t ! k \<noteq> NaN"
    using tl kK by (simp add: np_var_def ne)
  have at_var: "at_argmax_mean ?b1 (actions_predictive_density_var ?b1) t
      = Inr (actions_predictive_density_var ?b1 ! t ! k)"
    using tl k kK by (simp add: at_argmax_mean_def get_col_def get_elem_def)
  have at_mean: "at_argmax_mean ?b1 (actions_predictive_density_mean ?b1) t
      = Inr (actions_predictive_density_mean ?b1 ! t ! k)"
    using tl k kK by (simp add: at_argmax_mean_def get_col_def get_elem_def)
  from assms(8) show ?thesis
  proof
    assume ty: "sampling_type (sampling b) = ''invVar''"
    obtain n where "np_minimum (np_maximum (np_recip (actions_predictive_density_var ?b1 ! t ! k)) (Fin 1)) (Fin c) = Fin n"
      "n \<le> c" "min 1 c \<le> n"
      using floor_then_cap[OF var_k] by blast
    moreover from this assms(10) have "1 \<le> n" by (simp add: min_def split: if_splits)
    ultimately have "sampling_n_samples_at ?b1 t = Inr (Fin n) \<and> 1 \<le> n \<and> n \<le> c"
      using ty assms(9) at_var unfolding sampling_n_samples_at_def knob_def Let_def by simp
    with run show ?thesis by blast
  next
    assume ty: "sampling_type (sampling b) = ''invPFA''"
    have "np_one_minus (actions_predictive_density_mean ?b1 ! t ! k) \<noteq> NaN"
      unfolding mean_k by simp
    then obtain n where "np_minimum (np_maximum (np_recip (np_one_minus (actions_predictive_density_mean ?b1 ! t ! k))) (Fin 1)) (Fin c) = Fin n"
      "n \<le> c" "min 1 c \<le> n"
      using floor_then_cap by blast
    moreover from this assms(10) have "1 \<le> n" by (simp add: min_def split: if_splits)
    ultimately have "sampling_n_samples_at ?b1 t = Inr (Fin n) \<and> 1 \<le> n \<and> n \<le> c"
      using ty assms(9) at_mean unfolding sampling_n_samples_at_def knob_def Let_def by simp
    with run show ?thesis by blast
  qed
qed

text \<open>The bound at three inputs with the cap 3: both arms equally probable in \<open>invVar\<close>
  (variance \<open>1/4\<close>), and one arm winning every draw, which gives the variance 0 in \<open>invVar\<close>
  and the mean 1 in \<open>invPFA\<close>.\<close>

theorem budget_cap_and_floor_witness:
  "prior_dist (execute_allocate (example_bandit ''invVar'' 3) 1) = ''beta''
   \<and> reward_posterior_alpha (execute_allocate (example_bandit ''invVar'' 3) 1) \<noteq> []
   \<and> reward_posterior_beta (execute_allocate (example_bandit ''invVar'' 3) 1) \<noteq> []
   \<and> 0 < K (execute_allocate (example_bandit ''invVar'' 3) 1)
   \<and> 1 \<le> M (execute_allocate (example_bandit ''invVar'' 3) 1)
   \<and> allocated (execute_allocate (example_bandit ''invVar'' 3) 1) 1
   \<and> (0::nat) < 1
   \<and> sampling_type (sampling (execute_allocate (example_bandit ''invVar'' 3) 1)) = ''invVar''
   \<and> sampling_n_max (sampling (execute_allocate (example_bandit ''invVar'' 3) 1)) = Some 3
   \<and> (1::real) \<le> 3
   \<and> (\<exists>b1 n. compute_action_predictive_density example_rng
                 (execute_allocate (example_bandit ''invVar'' 3) 1) 0 = Inr b1
      \<and> sampling_n_samples_at b1 0 = Inr (Fin n) \<and> 1 \<le> n \<and> n \<le> 3)
   \<and> (\<exists>b1. compute_action_predictive_density
                 (example_rng\<lparr>beta_rvs := \<lambda>a b t k m. if k = 0 then 3 / 4 else 1 / 4\<rparr>)
                 (execute_allocate (example_bandit ''invVar'' 3) 1) 0 = Inr b1
      \<and> actions_predictive_density_var b1 ! 0 ! 0 = Fin 0
      \<and> sampling_n_samples_at b1 0 = Inr (Fin 3))
   \<and> (\<exists>b1. compute_action_predictive_density
                 (example_rng\<lparr>beta_rvs := \<lambda>a b t k m. if k = 0 then 3 / 4 else 1 / 4\<rparr>)
                 (execute_allocate (example_bandit ''invPFA'' 3) 1) 0 = Inr b1
      \<and> actions_predictive_density_mean b1 ! 0 ! 0 = Fin 1
      \<and> sampling_n_samples_at b1 0 = Inr (Fin 3))"
proof -
  let ?b = "execute_allocate (example_bandit ''invVar'' 3) 1"
  let ?p = "execute_allocate (example_bandit ''invPFA'' 3) 1"
  let ?g = "example_rng\<lparr>beta_rvs := \<lambda>a b t k m. if k = 0 then 3 / 4 else 1 / 4\<rparr>"
  have h: "prior_dist ?b = ''beta''" "reward_posterior_alpha ?b \<noteq> []"
    "reward_posterior_beta ?b \<noteq> []" "0 < K ?b" "1 \<le> M ?b" "allocated ?b 1" "(0::nat) < 1"
    by (simp_all add: example_defs)
  have ty: "sampling_type (sampling ?b) = ''invVar'' \<or> sampling_type (sampling ?b) = ''invPFA''"
    and ty': "sampling_type (sampling ?b) = ''invVar''"
    and c: "sampling_n_max (sampling ?b) = Some 3" and c1: "(1::real) \<le> 3"
    by (simp_all add: example_defs)
  have hp: "prior_dist ?p = ''beta''" "reward_posterior_alpha ?p \<noteq> []"
    "reward_posterior_beta ?p \<noteq> []" "0 < K ?p" "1 \<le> M ?p" "allocated ?p 1" "(0::nat) < 1"
    by (simp_all add: example_defs)
  have ty2: "sampling_type (sampling ?p) = ''invVar'' \<or> sampling_type (sampling ?p) = ''invPFA''"
    and cp: "sampling_n_max (sampling ?p) = Some 3"
    by (simp_all add: example_defs)
  have zero_var: "\<exists>b1. compute_action_predictive_density ?g ?b 0 = Inr b1
      \<and> actions_predictive_density_var b1 ! 0 ! 0 = Fin 0
      \<and> sampling_n_samples_at b1 0 = Inr (Fin 3)"
    using budget_cap_and_floor[OF h ty c c1, of ?g]
    by (simp add: example_defs run_defs)
  have one_mean: "\<exists>b1. compute_action_predictive_density ?g ?p 0 = Inr b1
      \<and> actions_predictive_density_mean b1 ! 0 ! 0 = Fin 1
      \<and> sampling_n_samples_at b1 0 = Inr (Fin 3)"
    using budget_cap_and_floor[OF hp ty2 cp c1, of ?g]
    by (simp add: example_defs run_defs)
  from budget_cap_and_floor[OF h ty c c1, of example_rng] h ty' c c1 zero_var one_mean
  show ?thesis by blast
qed

subsection \<open>What one call changes\<close>

lemma set_col_Inr:
  "set_col a t v = Inr a' \<Longrightarrow> a' = a[t := v] \<and> t < length a \<and> length v = length (a ! t)"
  by (auto simp: set_col_def split: if_splits)

lemma set_elem_Inr:
  "set_elem a k t x = Inr a' \<Longrightarrow> a' = a[t := (a ! t)[k := x]] \<and> t < length a \<and> k < length (a ! t)"
  by (auto simp: set_elem_def split: if_splits)

lemma shape2_set_col:
  "shape2 k n a \<Longrightarrow> set_col a t v = Inr a' \<Longrightarrow> shape2 k n a'"
  by (auto simp: shape2_def set_col_def split: if_splits dest: set_update_subset_insert[THEN subsetD])

lemma shape2_update_elem:
  "shape2 k n a \<Longrightarrow> t < n \<Longrightarrow> shape2 k n (a[t := (a ! t)[i := x]])"
  by (cases "t < length a") (auto simp: shape2_def dest!: set_update_subset_insert[THEN subsetD])


lemma shape2_update_same:
  "shape2 k n a \<Longrightarrow> t < n \<Longrightarrow> length v = length (a ! t) \<Longrightarrow> shape2 k n (a[t := v])"
  using shape2_update[of k n a v t] shape2_nth[of k n a t] by simp

lemma compute_Inr:
  assumes "compute_action_predictive_density g b t = Inr b1"
  shows "\<exists>rc mc vc. b1 = b\<lparr>returns_expected := (returns_expected b)[t := rc],
            actions_predictive_density_mean := (actions_predictive_density_mean b)[t := mc],
            actions_predictive_density_var := (actions_predictive_density_var b)[t := vc]\<rparr>
      \<and> length rc = length (returns_expected b ! t)
      \<and> length mc = length (actions_predictive_density_mean b ! t)
      \<and> length vc = length (actions_predictive_density_var b ! t)
      \<and> prior_dist b = ''beta''"
proof -
  from assms have prior: "prior_dist b = ''beta''"
    unfolding compute_action_predictive_density_def by (auto split: if_splits)
  from assms obtain rc re am mc mn vc vr where
    1: "set_col (returns_expected b) t rc = Inr re"
    and 2: "set_col (actions_predictive_density_mean b) t mc = Inr mn"
    and 3: "set_col (actions_predictive_density_var b) t vc = Inr vr"
    and b1: "b1 = b\<lparr>returns_expected := re, actions_predictive_density_mean := mn,
            actions_predictive_density_var := vr\<rparr>"
    unfolding compute_action_predictive_density_def Let_def
    by (auto split: if_splits sum.splits)
  from set_col_Inr[OF 1] set_col_Inr[OF 2] set_col_Inr[OF 3] b1 prior
  show ?thesis by auto
qed

lemma pick_action_Inr:
  assumes "pick_action g b t = Inr (b3, action)"
  shows "\<exists>a votes. draw_votes g b t = Inr votes
      \<and> argmax (>) (tally (length (actions_predictive_density_mean b ! t)) votes) = Inr a
      \<and> t < length (actions b) \<and> a < length (actions b ! t)
      \<and> b3 = b\<lparr>actions := (actions b)[t := (actions b ! t)[a := 1]]\<rparr>
      \<and> first_index (\<lambda>x. x = 1) ((actions b ! t)[a := 1]) = Some action
      \<and> t < length (n_samples b) \<and> n_samples b ! t \<noteq> PInf"
  using assms
  unfolding pick_action_def Let_def
  by (auto split: if_splits sum.splits option.splits dest!: set_elem_Inr)

lemma update_reward_posterior_Inr:
  assumes "update_reward_posterior b t = Inr b'"
  shows "\<exists>a c. broadcast2 (+) (prior_alpha b) (row_sums_upto (K b) (returns b) t) = Inr a
      \<and> broadcast2 (+) (prior_beta b)
            (map2 (-) (row_sums_upto (K b) (actions b) t) (row_sums_upto (K b) (returns b) t)) = Inr c
      \<and> b' = b\<lparr>reward_posterior_alpha := reward_posterior_alpha b @ [a],
               reward_posterior_beta := reward_posterior_beta b @ [c]\<rparr>
      \<and> reward_dist b = ''bernoulli'' \<and> prior_dist b = ''beta''"
  using assms
  unfolding update_reward_posterior_def Let_def
  by (auto split: if_splits sum.splits)

lemma first_index_update_zero:
  "a < k \<Longrightarrow> first_index (\<lambda>x. x = (1::real)) ((replicate k 0)[a := 1]) = Some a"
proof (induction k arbitrary: a)
  case 0
  then show ?case by simp
next
  case (Suc k)
  show ?case
  proof (cases a)
    case 0
    then show ?thesis by (simp add: replicate_Suc)
  next
    case (Suc a')
    with Suc.prems have "a' < k" by simp
    from Suc.IH[OF this] Suc show ?thesis by (simp add: replicate_Suc)
  qed
qed


lemma execute_step_Inr:
  assumes step: "execute_step g b t = Inr b'"
    and alloc: "allocated b n" and t: "t < n"
    and zero: "actions b ! t = replicate (K b) 0"
  shows "\<exists>a al be. a < K b
    \<and> actions b' = (actions b)[t := (replicate (K b) 0)[a := 1]]
    \<and> returns b' = (returns b)[t := (returns b ! t)[a := reward_rvs g t a]]
    \<and> reward_posterior_alpha b' = reward_posterior_alpha b @ [al]
    \<and> reward_posterior_beta b' = reward_posterior_beta b @ [be]
    \<and> broadcast2 (+) (prior_alpha b) (row_sums_upto (K b) (returns b') t) = Inr al
    \<and> broadcast2 (+) (prior_beta b)
         (map2 (-) (row_sums_upto (K b) (actions b') t) (row_sums_upto (K b) (returns b') t)) = Inr be
    \<and> same_config b b' \<and> allocated b' n"
proof -
  from step obtain b1 where c: "compute_action_predictive_density g b t = Inr b1"
    unfolding execute_step_def by (auto split: sum.splits)
  from step c obtain ns where ns: "sampling_n_samples_at b1 t = Inr ns"
    unfolding execute_step_def by (auto split: sum.splits)
  define b2 where "b2 = b1\<lparr>n_samples := (n_samples b1)[t := ns]\<rparr>"
  from step c ns obtain b3 action where p: "pick_action g b2 t = Inr (b3, action)"
    unfolding execute_step_def b2_def Let_def by (auto split: sum.splits if_splits)
  from step c ns p obtain rets where r: "set_elem (returns b3) action t (reward_rvs g t action) = Inr rets"
    and u: "update_reward_posterior (b3\<lparr>returns := rets\<rparr>) t = Inr b'"
    unfolding execute_step_def b2_def Let_def by (auto split: sum.splits if_splits)
  from compute_Inr[OF c] obtain rc mc vc where b1: "b1 = b\<lparr>returns_expected := (returns_expected b)[t := rc],
            actions_predictive_density_mean := (actions_predictive_density_mean b)[t := mc],
            actions_predictive_density_var := (actions_predictive_density_var b)[t := vc]\<rparr>"
    and lens: "length rc = length (returns_expected b ! t)"
      "length mc = length (actions_predictive_density_mean b ! t)"
      "length vc = length (actions_predictive_density_var b ! t)"
    by blast
  from pick_action_Inr[OF p] obtain a where a: "t < length (actions b2)" "a < length (actions b2 ! t)"
    and b3: "b3 = b2\<lparr>actions := (actions b2)[t := (actions b2 ! t)[a := 1]]\<rparr>"
    and fi: "first_index (\<lambda>x. x = 1) ((actions b2 ! t)[a := 1]) = Some action"
    by blast
  have acts2: "actions b2 = actions b" by (simp add: b2_def b1)
  have aK: "a < K b" using a(2) zero by (simp add: acts2)
  have "action = a" using fi first_index_update_zero[OF aK] by (simp add: acts2 zero)
  note rr = set_elem_Inr[OF r, unfolded \<open>action = a\<close>]
  have rets: "rets = (returns b)[t := (returns b ! t)[a := reward_rvs g t a]]"
    using rr by (simp add: b3 b2_def b1)
  from update_reward_posterior_Inr[OF u] obtain al be where
    al: "broadcast2 (+) (prior_alpha b) (row_sums_upto (K b) rets t) = Inr al"
    and be: "broadcast2 (+) (prior_beta b)
         (map2 (-) (row_sums_upto (K b) (actions b3) t) (row_sums_upto (K b) rets t)) = Inr be"
    and b': "b' = (b3\<lparr>returns := rets\<rparr>)\<lparr>reward_posterior_alpha := reward_posterior_alpha b3 @ [al],
               reward_posterior_beta := reward_posterior_beta b3 @ [be]\<rparr>"
    by (auto simp: b3 b2_def b1)
  have acts': "actions b' = (actions b)[t := (replicate (K b) 0)[a := 1]]"
    by (simp add: b' b3 acts2 zero)
  have rets': "returns b' = rets" by (simp add: b')
  have alloc': "allocated b' n"
    using alloc t lens
    by (simp add: allocated_def b' b3 b2_def b1 rets shape2_update_elem shape2_update_same)
  have cfg: "same_config b b'" by (simp add: same_config_def b' b3 b2_def b1)
  show ?thesis
    using aK acts' rets' al be cfg alloc'
    by (intro exI[of _ a] exI[of _ al] exI[of _ be]) (simp add: b' b3 b2_def b1 rets acts2 zero)
qed


lemma row_sums_upto_update:
  "t < m \<Longrightarrow> row_sums_upto k (a[m := c]) t = row_sums_upto k a t"
  by (simp add: row_sums_upto_def)

lemma run_inv_start: "run_inv g b t_max 0 (execute_allocate b t_max)"
  by (simp add: run_inv_def same_config_def allocated_def shape2_def execute_allocate_def zeros2_def)

lemma run_inv_step:
  assumes inv: "run_inv g b0 t_max m b" and m: "m < t_max"
    and step: "execute_step g b m = Inr b'"
  shows "run_inv g b0 t_max (Suc m) b'"
proof -
  from inv have cfg: "same_config b0 b" and alloc: "allocated b t_max"
    and zero: "actions b ! m = replicate (K b) 0" "returns b ! m = replicate (K b) 0"
    using m by (auto simp: run_inv_def same_config_def)
  from cfg have K: "K b = K b0" and pa: "prior_alpha b = prior_alpha b0" and pb: "prior_beta b = prior_beta b0"
    by (simp_all add: same_config_def)
  from execute_step_Inr[OF step alloc m zero(1)] obtain a al be where
    a: "a < K b"
    and acts: "actions b' = (actions b)[m := (replicate (K b) 0)[a := 1]]"
    and rets: "returns b' = (returns b)[m := (returns b ! m)[a := reward_rvs g m a]]"
    and pal: "reward_posterior_alpha b' = reward_posterior_alpha b @ [al]"
    and pbe: "reward_posterior_beta b' = reward_posterior_beta b @ [be]"
    and al: "broadcast2 (+) (prior_alpha b) (row_sums_upto (K b) (returns b') m) = Inr al"
    and be: "broadcast2 (+) (prior_beta b)
         (map2 (-) (row_sums_upto (K b) (actions b') m) (row_sums_upto (K b) (returns b') m)) = Inr be"
    and cfg': "same_config b b'" and alloc': "allocated b' t_max"
    by blast
  from alloc m have lm: "m < length (actions b)" "m < length (returns b)"
    by (simp_all add: allocated_def shape2_def)
  have c1: "same_config b0 b'" using cfg cfg' by (simp add: same_config_def)
  have la: "length (reward_posterior_alpha b) = length (reward_posterior_alpha b0) + m"
    and lb: "length (reward_posterior_beta b) = length (reward_posterior_beta b0) + m"
    and ta: "take (length (reward_posterior_alpha b0)) (reward_posterior_alpha b) = reward_posterior_alpha b0"
    and tb: "take (length (reward_posterior_beta b0)) (reward_posterior_beta b) = reward_posterior_beta b0"
    using inv by (simp_all add: run_inv_def)
  have done_cols: "\<exists>a<K b0. actions b' ! t = (replicate (K b0) 0)[a := 1]
                  \<and> returns b' ! t = (replicate (K b0) 0)[a := reward_rvs g t a]" if "t < Suc m" for t
  proof (cases "t = m")
    case True
    then show ?thesis using a lm by (auto simp: acts rets zero K)
  next
    case False
    with that have "t < m" by simp
    with inv have "\<exists>a<K b0. actions b ! t = (replicate (K b0) 0)[a := 1]
                  \<and> returns b ! t = (replicate (K b0) 0)[a := reward_rvs g t a]"
      by (simp add: run_inv_def)
    then show ?thesis using False by (simp add: acts rets)
  qed
  have pending: "actions b' ! t = replicate (K b0) 0 \<and> returns b' ! t = replicate (K b0) 0"
    if "Suc m \<le> t" "t < t_max" for t
    using inv that by (simp add: run_inv_def acts rets)
  have snaps: "broadcast2 (+) (prior_alpha b0) (row_sums_upto (K b0) (returns b') t)
                  = Inr (reward_posterior_alpha b' ! (length (reward_posterior_alpha b0) + t))
              \<and> broadcast2 (+) (prior_beta b0)
                    (map2 (-) (row_sums_upto (K b0) (actions b') t) (row_sums_upto (K b0) (returns b') t))
                  = Inr (reward_posterior_beta b' ! (length (reward_posterior_beta b0) + t))"
    if "t < Suc m" for t
  proof (cases "t = m")
    case True
    then show ?thesis using al be by (simp add: pal pbe la[symmetric] lb[symmetric] K pa pb)
  next
    case False
    with that have tm: "t < m" by simp
    with inv have "broadcast2 (+) (prior_alpha b0) (row_sums_upto (K b0) (returns b) t)
                  = Inr (reward_posterior_alpha b ! (length (reward_posterior_alpha b0) + t))
              \<and> broadcast2 (+) (prior_beta b0)
                    (map2 (-) (row_sums_upto (K b0) (actions b) t) (row_sums_upto (K b0) (returns b) t))
                  = Inr (reward_posterior_beta b ! (length (reward_posterior_beta b0) + t))"
      by (simp add: run_inv_def)
    then show ?thesis using tm
      by (simp add: pal pbe acts rets row_sums_upto_update nth_append la lb)
  qed
  show ?thesis
    unfolding run_inv_def
    using c1 alloc' done_cols pending snaps
    by (simp add: pal pbe la lb ta tb)
qed

lemma run_inv_loop:
  assumes "run_inv g b0 t_max k b" and "m \<le> t_max"
    and "execute_loop g b [k..<m] = Inr b'" and "k \<le> m"
  shows "run_inv g b0 t_max m b'"
  using assms
proof (induction "m - k" arbitrary: k b)
  case 0
  then show ?case by simp
next
  case (Suc d)
  then have lt: "k < m" by simp
  then have upt: "[k..<m] = k # [Suc k..<m]" by (simp add: upt_rec)
  from Suc.prems(3) obtain b1 where s: "execute_step g b k = Inr b1"
    and l: "execute_loop g b1 [Suc k..<m] = Inr b'"
    unfolding upt by (auto split: sum.splits)
  have "run_inv g b0 t_max (Suc k) b1"
    by (rule run_inv_step[OF Suc.prems(1) _ s]) (use lt Suc.prems(2) in simp)
  moreover have "d = m - Suc k" using Suc.hyps(2) by simp
  ultimately show ?case using Suc.hyps(1) Suc.prems(2) l lt by simp
qed

lemma run_inv_prefix:
  "execute_loop g (execute_allocate b t_max) [0..<m] = Inr b' \<Longrightarrow> m \<le> t_max \<Longrightarrow> run_inv g b t_max m b'"
  using run_inv_loop[OF run_inv_start, of m t_max g b b'] by simp

subsection \<open>Properties of a run\<close>





lemma sum_list_take_nth:
  "n \<le> length xs \<Longrightarrow> sum_list (map f (take n xs)) = (\<Sum>j<n. f (xs ! j))"
proof (induction n)
  case 0
  then show ?case by simp
next
  case (Suc n)
  then have "take (Suc n) xs = take n xs @ [xs ! n]" by (simp add: take_Suc_conv_app_nth)
  with Suc show ?case by simp
qed

lemma row_sums_upto_nth:
  "i < k \<Longrightarrow> Suc t \<le> length a \<Longrightarrow> row_sums_upto k a t ! i = (\<Sum>j\<le>t. a ! j ! i)"
  by (simp add: row_sums_upto_def sum_list_take_nth lessThan_Suc_atMost)

lemma length_row_sums_upto: "length (row_sums_upto k a t) = k"
  by (simp add: row_sums_upto_def)

lemma run_inv_snapshot:
  assumes inv: "run_inv g b t_max m b'" and m: "m \<le> t_max" and t: "t < m" and i: "i < K b"
    and la: "length (prior_alpha b) = K b" and lb: "length (prior_beta b) = K b"
  shows "reward_posterior_alpha b' ! (length (reward_posterior_alpha b) + t) ! i
           = prior_alpha b ! i + (\<Sum>j\<le>t. returns b' ! j ! i)"
    and "reward_posterior_beta b' ! (length (reward_posterior_beta b) + t) ! i
           = prior_beta b ! i + ((\<Sum>j\<le>t. actions b' ! j ! i) - (\<Sum>j\<le>t. returns b' ! j ! i))"
proof -
  from inv have alloc: "allocated b' t_max" and K: "K b' = K b"
    by (simp_all add: run_inv_def same_config_def)
  then have len: "Suc t \<le> length (returns b')" "Suc t \<le> length (actions b')"
    using t m by (simp_all add: allocated_def shape2_def)
  from inv t have
    a: "broadcast2 (+) (prior_alpha b) (row_sums_upto (K b) (returns b') t)
          = Inr (reward_posterior_alpha b' ! (length (reward_posterior_alpha b) + t))"
    and c: "broadcast2 (+) (prior_beta b)
          (map2 (-) (row_sums_upto (K b) (actions b') t) (row_sums_upto (K b) (returns b') t))
          = Inr (reward_posterior_beta b' ! (length (reward_posterior_beta b) + t))"
    by (simp_all add: run_inv_def)
  from a la have a': "reward_posterior_alpha b' ! (length (reward_posterior_alpha b) + t)
      = map2 (+) (prior_alpha b) (row_sums_upto (K b) (returns b') t)"
    by (simp add: broadcast2_def length_row_sums_upto)
  from c lb have c': "reward_posterior_beta b' ! (length (reward_posterior_beta b) + t)
      = map2 (+) (prior_beta b)
          (map2 (-) (row_sums_upto (K b) (actions b') t) (row_sums_upto (K b) (returns b') t))"
    by (simp add: broadcast2_def length_row_sums_upto)
  show "reward_posterior_alpha b' ! (length (reward_posterior_alpha b) + t) ! i
           = prior_alpha b ! i + (\<Sum>j\<le>t. returns b' ! j ! i)"
    unfolding a' using la i
    by (simp add: length_row_sums_upto row_sums_upto_nth[OF i len(1)])
  show "reward_posterior_beta b' ! (length (reward_posterior_beta b) + t) ! i
           = prior_beta b ! i + ((\<Sum>j\<le>t. actions b' ! j ! i) - (\<Sum>j\<le>t. returns b' ! j ! i))"
    unfolding c' using lb i
    by (simp add: length_row_sums_upto row_sums_upto_nth[OF i len(1)]
        row_sums_upto_nth[OF i len(2)])
qed

text \<open>Claim C4. For hyperparameter vectors of length \<open>K\<close>: after \<open>m\<close> completed iterations,
  \<open>m\<close> snapshots have been appended, and the one appended by \<^verbatim>\<open>update_reward_posterior(t)\<close>
  is, at every arm, the prior's alpha plus the sum of the recorded returns over the times
  \<open>0..t\<close>, and the prior's beta plus the sum of the action indicators minus the sum of the
  returns over the times \<open>0..t\<close>.\<close>

theorem posterior_closed_form:
  assumes "execute_loop g (execute_allocate b t_max) [0..<m] = Inr b'"
    and "m \<le> t_max" and "t < m" and "i < K b"
    and "length (prior_alpha b) = K b" and "length (prior_beta b) = K b"
  shows "length (reward_posterior_alpha b') = length (reward_posterior_alpha b) + m
    \<and> length (reward_posterior_beta b') = length (reward_posterior_beta b) + m
    \<and> reward_posterior_alpha b' ! (length (reward_posterior_alpha b) + t) ! i
           = prior_alpha b ! i + (\<Sum>j\<le>t. returns b' ! j ! i)
    \<and> reward_posterior_beta b' ! (length (reward_posterior_beta b) + t) ! i
           = prior_beta b ! i + ((\<Sum>j\<le>t. actions b' ! j ! i) - (\<Sum>j\<le>t. returns b' ! j ! i))"
proof -
  note inv = run_inv_prefix[OF assms(1,2)]
  from inv have "length (reward_posterior_alpha b') = length (reward_posterior_alpha b) + m"
    "length (reward_posterior_beta b') = length (reward_posterior_beta b) + m"
    by (simp_all add: run_inv_def)
  with run_inv_snapshot[OF inv assms(2-6)] show ?thesis by simp
qed

theorem posterior_closed_form_witness:
  "execute_loop example_rng (execute_allocate (example_bandit ''static'' 1) 2) [0..<2]
      = Inr (final_state (execute example_rng (example_bandit ''static'' 1) 2))
   \<and> (2::nat) \<le> 2 \<and> (1::nat) < 2 \<and> 0 < K (example_bandit ''static'' 1)
   \<and> length (prior_alpha (example_bandit ''static'' 1)) = K (example_bandit ''static'' 1)
   \<and> length (prior_beta (example_bandit ''static'' 1)) = K (example_bandit ''static'' 1)
   \<and> reward_posterior_alpha (final_state (execute example_rng (example_bandit ''static'' 1) 2)) ! 2 ! 0
        = prior_alpha (example_bandit ''static'' 1) ! 0
          + (\<Sum>j\<le>1. returns (final_state (execute example_rng (example_bandit ''static'' 1) 2)) ! j ! 0)
   \<and> reward_posterior_alpha (final_state (execute example_rng (example_bandit ''static'' 1) 2))
        = [[1, 1], [2, 1], [3, 1]]
   \<and> reward_posterior_beta (final_state (execute example_rng (example_bandit ''static'' 1) 2))
        = [[1, 1], [1, 1], [1, 1]]"
proof -
  let ?b = "example_bandit ''static'' 1"
  have run: "execute_loop example_rng (execute_allocate ?b 2) [0..<2]
      = Inr (final_state (execute example_rng ?b 2))"
    by (simp add: example_defs run_defs)
  have h: "(2::nat) \<le> 2" "(1::nat) < 2" "0 < K ?b" "length (prior_alpha ?b) = K ?b"
    "length (prior_beta ?b) = K ?b"
    by (simp_all add: example_defs)
  have l: "length (reward_posterior_alpha ?b) + 1 = 2" by (simp add: example_defs)
  have v: "reward_posterior_alpha (final_state (execute example_rng ?b 2)) = [[1, 1], [2, 1], [3, 1]]"
    "reward_posterior_beta (final_state (execute example_rng ?b 2)) = [[1, 1], [1, 1], [1, 1]]"
    by (simp_all add: example_defs run_defs)
  from posterior_closed_form[OF run h] have "reward_posterior_alpha (final_state (execute example_rng ?b 2))
          ! (length (reward_posterior_alpha ?b) + 1) ! 0
        = prior_alpha ?b ! 0 + (\<Sum>j\<le>1. returns (final_state (execute example_rng ?b 2)) ! j ! 0)"
    by blast
  with run h v show ?thesis unfolding l by blast
qed

lemma run_inv_column:
  assumes inv: "run_inv g b t_max m b'" and t: "t < m" and i: "i < K b"
    and r: "reward_rvs g t i = 0 \<or> reward_rvs g t i = 1"
  shows "0 \<le> returns b' ! t ! i \<and> returns b' ! t ! i \<le> actions b' ! t ! i"
proof -
  from inv t obtain a where a: "a < K b" "actions b' ! t = (replicate (K b) 0)[a := 1]"
    "returns b' ! t = (replicate (K b) 0)[a := reward_rvs g t a]"
    unfolding run_inv_def by blast
  show ?thesis
  proof (cases "i = a")
    case True
    with a i r show ?thesis by auto
  next
    case False
    with a i show ?thesis by simp
  qed
qed

text \<open>Claim C7. For a freshly constructed bandit with hyperparameter vectors of length \<open>K\<close>
  and rewards drawn in \<open>{0, 1}\<close>: at every arm, snapshot \<open>t + 1\<close> of alpha and of beta is at
  least snapshot \<open>t\<close>.\<close>

theorem posterior_monotone:
  assumes run: "execute_loop g (execute_allocate b t_max) [0..<m] = Inr b'"
    and m: "m \<le> t_max" and t: "t < m" and i: "i < K b"
    and la: "length (prior_alpha b) = K b" and lb: "length (prior_beta b) = K b"
    and fa: "reward_posterior_alpha b = [prior_alpha b]"
    and fb: "reward_posterior_beta b = [prior_beta b]"
    and bern: "\<forall>j<m. reward_rvs g j i = 0 \<or> reward_rvs g j i = 1"
  shows "reward_posterior_alpha b' ! t ! i \<le> reward_posterior_alpha b' ! Suc t ! i
    \<and> reward_posterior_beta b' ! t ! i \<le> reward_posterior_beta b' ! Suc t ! i"
proof -
  note inv = run_inv_prefix[OF run m]
  have col: "0 \<le> returns b' ! j ! i \<and> returns b' ! j ! i \<le> actions b' ! j ! i" if "j < m" for j
    using run_inv_column[OF inv that i] bern that by simp
  have sa: "reward_posterior_alpha b' ! Suc j ! i = prior_alpha b ! i + (\<Sum>l\<le>j. returns b' ! l ! i)"
    and sb: "reward_posterior_beta b' ! Suc j ! i
           = prior_beta b ! i + ((\<Sum>l\<le>j. actions b' ! l ! i) - (\<Sum>l\<le>j. returns b' ! l ! i))"
    if "j < m" for j
    using run_inv_snapshot[OF inv m that i la lb] by (simp_all add: fa fb)
  show ?thesis
  proof (cases t)
    case 0
    from inv have "take 1 (reward_posterior_alpha b') = [prior_alpha b]"
      "take 1 (reward_posterior_beta b') = [prior_beta b]"
      by (simp_all add: run_inv_def fa fb)
    then have z: "reward_posterior_alpha b' ! 0 = prior_alpha b" "reward_posterior_beta b' ! 0 = prior_beta b"
      by (metis nth_take nth_Cons_0 zero_less_one)+
    from col[of 0] t 0 sa[of 0] sb[of 0] show ?thesis by (simp add: z)
  next
    case (Suc t')
    with t have lt: "t' < m" "Suc t' < m" by simp_all
    from col[OF lt(2)] sa[OF lt(1)] sa[OF lt(2)] sb[OF lt(1)] sb[OF lt(2)]
    show ?thesis by (simp add: Suc)
  qed
qed


theorem posterior_monotone_witness:
  "execute_loop example_rng (execute_allocate (example_bandit ''static'' 1) 2) [0..<2]
      = Inr (final_state (execute example_rng (example_bandit ''static'' 1) 2))
   \<and> (2::nat) \<le> 2 \<and> (1::nat) < 2 \<and> 0 < K (example_bandit ''static'' 1)
   \<and> length (prior_alpha (example_bandit ''static'' 1)) = K (example_bandit ''static'' 1)
   \<and> length (prior_beta (example_bandit ''static'' 1)) = K (example_bandit ''static'' 1)
   \<and> reward_posterior_alpha (example_bandit ''static'' 1) = [prior_alpha (example_bandit ''static'' 1)]
   \<and> reward_posterior_beta (example_bandit ''static'' 1) = [prior_beta (example_bandit ''static'' 1)]
   \<and> reward_posterior_alpha (final_state (execute example_rng (example_bandit ''static'' 1) 2)) ! 1 ! 0
       \<le> reward_posterior_alpha (final_state (execute example_rng (example_bandit ''static'' 1) 2)) ! 2 ! 0
   \<and> reward_posterior_beta (final_state (execute example_rng (example_bandit ''static'' 1) 2)) ! 1 ! 0
       \<le> reward_posterior_beta (final_state (execute example_rng (example_bandit ''static'' 1) 2)) ! 2 ! 0"
proof -
  let ?b = "example_bandit ''static'' 1"
  have run: "execute_loop example_rng (execute_allocate ?b 2) [0..<2]
      = Inr (final_state (execute example_rng ?b 2))"
    by (simp add: example_defs run_defs)
  have h: "(2::nat) \<le> 2" "(1::nat) < 2" "0 < K ?b" "length (prior_alpha ?b) = K ?b"
    "length (prior_beta ?b) = K ?b" "reward_posterior_alpha ?b = [prior_alpha ?b]"
    "reward_posterior_beta ?b = [prior_beta ?b]"
    by (simp_all add: example_defs)
  have r: "\<forall>j<2. reward_rvs example_rng j 0 = 0 \<or> reward_rvs example_rng j 0 = 1"
    by (simp add: example_defs)
  from posterior_monotone[OF run h r] run h show ?thesis by (simp add: numeral_2_eq_2)
qed

subsection \<open>The action selector\<close>

lemma argmax_from_greatest:
  fixes ys :: "'a::linorder list"
  assumes "bi < i" "i \<le> length ys" "bv = ys ! bi"
    and "\<forall>j<i. ys ! j \<le> bv" and "\<forall>j<bi. ys ! j < bv"
  shows "argmax_from (>) bi bv i (drop i ys) < length ys
     \<and> (\<forall>j<length ys. ys ! j \<le> ys ! argmax_from (>) bi bv i (drop i ys))
     \<and> (\<forall>j<argmax_from (>) bi bv i (drop i ys). ys ! j < ys ! argmax_from (>) bi bv i (drop i ys))"
  using assms
proof (induction "length ys - i" arbitrary: bi bv i)
  case 0
  then have "drop i ys = []" by simp
  with 0 show ?case by simp
next
  case (Suc d)
  then have lt: "i < length ys" by simp
  then have dr: "drop i ys = ys ! i # drop (Suc i) ys" by (simp add: Cons_nth_drop_Suc)
  have d: "d = length ys - Suc i" using Suc.hyps(2) by simp
  show ?case
  proof (cases "ys ! i > bv")
    case True
    have a: "\<forall>j<Suc i. ys ! j \<le> ys ! i"
      using Suc.prems(4) True by (auto simp: less_Suc_eq intro: order.trans less_imp_le)
    have b: "\<forall>j<i. ys ! j < ys ! i"
      using Suc.prems(4) True by (auto intro: le_less_trans)
    from Suc.hyps(1)[OF d _ _ refl a b] lt True show ?thesis by (simp add: dr)
  next
    case False
    have a: "\<forall>j<Suc i. ys ! j \<le> bv"
      using Suc.prems(4) False by (auto simp: less_Suc_eq)
    from Suc.hyps(1)[OF d _ _ Suc.prems(3) a Suc.prems(5)] lt False Suc.prems(1)
    show ?thesis by (simp add: dr)
  qed
qed

lemma argmax_greatest:
  fixes ys :: "'a::linorder list"
  assumes "ys \<noteq> []"
  shows "\<exists>a. argmax (>) ys = Inr a \<and> a < length ys
     \<and> (\<forall>j<length ys. ys ! j \<le> ys ! a) \<and> (\<forall>j<a. ys ! j < ys ! a)"
proof -
  from assms obtain x xs where ys: "ys = x # xs" by (cases ys) auto
  have "argmax_from (>) 0 x 1 (drop 1 ys) < length ys
     \<and> (\<forall>j<length ys. ys ! j \<le> ys ! argmax_from (>) 0 x 1 (drop 1 ys))
     \<and> (\<forall>j<argmax_from (>) 0 x 1 (drop 1 ys). ys ! j < ys ! argmax_from (>) 0 x 1 (drop 1 ys))"
    by (rule argmax_from_greatest) (simp_all add: ys)
  then show ?thesis by (simp add: ys argmax_def)
qed

text \<open>Claim C3, as amended. At a time \<open>t\<close> whose number of samples is a finite \<open>x \<ge> 0\<close>,
  with a valid vector of vote probabilities and a column of the action record that is
  still zero, the selector draws exactly \<open>\<lfloor>x\<rfloor>\<close> votes (\<^verbatim>\<open>int\<close> truncates), with the
  predictive means at \<open>t\<close> as probabilities, and returns the arm with the most votes, the
  lowest such arm on ties, after writing its 1 into the action record.\<close>

theorem votes_truncated_budget:
  assumes "t < length (n_samples b)" and "n_samples b ! t = Fin x" and "0 \<le> x"
    and "t < length (actions_predictive_density_mean b)"
    and "valid_pvals (actions_predictive_density_mean b ! t)"
    and "t < length (actions b)"
    and "actions b ! t = replicate (length (actions_predictive_density_mean b ! t)) 0"
    and "actions_predictive_density_mean b ! t \<noteq> []"
  shows "\<exists>a. draw_votes g b t
        = Inr (map (multinomial g (actions_predictive_density_mean b ! t) t) [0..<nat \<lfloor>x\<rfloor>])
     \<and> pick_action g b t
        = Inr (b\<lparr>actions := (actions b)[t := (replicate (length (actions_predictive_density_mean b ! t)) 0)[a := 1]]\<rparr>, a)
     \<and> a < length (actions_predictive_density_mean b ! t)
     \<and> (\<forall>j<length (actions_predictive_density_mean b ! t).
          tally (length (actions_predictive_density_mean b ! t))
             (map (multinomial g (actions_predictive_density_mean b ! t) t) [0..<nat \<lfloor>x\<rfloor>]) ! j
          \<le> tally (length (actions_predictive_density_mean b ! t))
             (map (multinomial g (actions_predictive_density_mean b ! t) t) [0..<nat \<lfloor>x\<rfloor>]) ! a)
     \<and> (\<forall>j<a.
          tally (length (actions_predictive_density_mean b ! t))
             (map (multinomial g (actions_predictive_density_mean b ! t) t) [0..<nat \<lfloor>x\<rfloor>]) ! j
          < tally (length (actions_predictive_density_mean b ! t))
             (map (multinomial g (actions_predictive_density_mean b ! t) t) [0..<nat \<lfloor>x\<rfloor>]) ! a)"
proof -
  let ?p = "actions_predictive_density_mean b ! t"
  let ?votes = "map (multinomial g ?p t) [0..<nat \<lfloor>x\<rfloor>]"
  let ?ta = "tally (length ?p) ?votes"
  have dv: "draw_votes g b t = Inr ?votes"
    using assms(2-5) by (simp add: draw_votes_def get_col_def np_random_multinomial_def)
  have "?ta \<noteq> []" using assms(8) by (simp add: tally_def)
  from argmax_greatest[OF this] obtain a where a: "argmax (>) ?ta = Inr a" "a < length ?ta"
    "\<forall>j<length ?ta. ?ta ! j \<le> ?ta ! a" "\<forall>j<a. ?ta ! j < ?ta ! a"
    by blast
  have lt: "length ?ta = length ?p" by (simp add: tally_def)
  have aK: "a < length ?p" using a(2) lt by simp
  have fi: "first_index (\<lambda>x. x = 1) ((replicate (length ?p) (0::real))[a := 1]) = Some a"
    by (rule first_index_update_zero[OF aK])
  have "pick_action g b t = Inr (b\<lparr>actions := (actions b)[t := (replicate (length ?p) 0)[a := 1]]\<rparr>, a)"
    using assms(1,2,6,7) dv a(1) aK fi
    by (simp add: pick_action_def set_elem_def)
  with dv aK a(3,4) lt show ?thesis by auto
qed


text \<open>With the static budget \<open>5/2\<close> two votes are drawn, not \<open>\<lceil>5/2\<rceil> = 3\<close>, and the run picks
  arm 0 where three votes would have picked arm 1.\<close>

theorem votes_not_ceiling_counterexample:
  "n_samples (final_state (execute example_rng (example_bandit ''static'' (5 / 2)) 1)) ! 0 = Fin (5 / 2)
   \<and> draw_votes example_rng (final_state (execute example_rng (example_bandit ''static'' (5 / 2)) 1)) 0
        = Inr [0, 1]
   \<and> length [0::nat, 1] \<noteq> nat \<lceil>5 / 2 :: real\<rceil>
   \<and> actions (final_state (execute example_rng (example_bandit ''static'' (5 / 2)) 1)) ! 0 = [1, 0]
   \<and> argmax (>) (tally 2 (map (multinomial example_rng
          (actions_predictive_density_mean
             (final_state (execute example_rng (example_bandit ''static'' (5 / 2)) 1)) ! 0) 0)
          [0..<nat \<lceil>5 / 2 :: real\<rceil>])) = Inr 1"
  by (simp add: example_defs run_defs)

theorem votes_truncated_budget_witness:
  "(0::nat) < length (n_samples ((execute_allocate (example_bandit ''static'' (5 / 2)) 1)
        \<lparr>actions_predictive_density_mean := [[Fin (1 / 2), Fin (1 / 2)]], n_samples := [Fin (5 / 2)]\<rparr>))
   \<and> valid_pvals [Fin (1 / 2), Fin (1 / 2)]
   \<and> draw_votes example_rng ((execute_allocate (example_bandit ''static'' (5 / 2)) 1)
        \<lparr>actions_predictive_density_mean := [[Fin (1 / 2), Fin (1 / 2)]], n_samples := [Fin (5 / 2)]\<rparr>) 0
      = Inr [0, 1]
   \<and> pick_action example_rng ((execute_allocate (example_bandit ''static'' (5 / 2)) 1)
        \<lparr>actions_predictive_density_mean := [[Fin (1 / 2), Fin (1 / 2)]], n_samples := [Fin (5 / 2)]\<rparr>) 0
      = Inr ((execute_allocate (example_bandit ''static'' (5 / 2)) 1)
        \<lparr>actions_predictive_density_mean := [[Fin (1 / 2), Fin (1 / 2)]], n_samples := [Fin (5 / 2)],
         actions := [[1, 0]]\<rparr>, 0)"
proof -
  let ?b = "(execute_allocate (example_bandit ''static'' (5 / 2)) 1)
        \<lparr>actions_predictive_density_mean := [[Fin (1 / 2), Fin (1 / 2)]], n_samples := [Fin (5 / 2)]\<rparr>"
  have h: "0 < length (n_samples ?b)" "n_samples ?b ! 0 = Fin (5 / 2)" "(0::real) \<le> 5 / 2"
    "0 < length (actions_predictive_density_mean ?b)"
    "valid_pvals (actions_predictive_density_mean ?b ! 0)"
    "0 < length (actions ?b)"
    "actions ?b ! 0 = replicate (length (actions_predictive_density_mean ?b ! 0)) 0"
    "actions_predictive_density_mean ?b ! 0 \<noteq> []"
    by (simp_all add: example_defs valid_pvals_def numeral_2_eq_2)
  from votes_truncated_budget[OF h, of example_rng] show ?thesis
    by (simp add: example_defs run_defs)
qed

subsection \<open>Runs that raise\<close>

lemma compute_Inl:
  "compute_action_predictive_density g b t = Inl (e, b') \<Longrightarrow>
   actions b' = actions b \<and> returns b' = returns b \<and> n_samples b' = n_samples b"
  unfolding compute_action_predictive_density_def Let_def
  by (auto split: if_splits sum.splits)

lemma compute_Inr_fields:
  assumes "compute_action_predictive_density g b t = Inr b1"
  shows "actions b1 = actions b" "returns b1 = returns b" "n_samples b1 = n_samples b"
    "sampling b1 = sampling b" "reward_dist b1 = reward_dist b" "prior_dist b1 = prior_dist b"
    "K b1 = K b"
  using compute_Inr[OF assms] by auto

lemma execute_head:
  "0 < t_max \<Longrightarrow> execute g b t_max =
     (case execute_step g (execute_allocate b t_max) 0 of
        Inl eb \<Rightarrow> Inl eb
      | Inr b' \<Rightarrow> execute_loop g b' [Suc 0..<t_max])"
  by (simp add: execute_def upt_rec[of 0])

lemma allocate_fields:
  "actions (execute_allocate b t_max) = zeros2 (K b) t_max 0"
  "returns (execute_allocate b t_max) = zeros2 (K b) t_max 0"
  "n_samples (execute_allocate b t_max) = replicate t_max (Fin 1)"
  "sampling (execute_allocate b t_max) = sampling b"
  "reward_dist (execute_allocate b t_max) = reward_dist b"
  "prior_dist (execute_allocate b t_max) = prior_dist b"
  "K (execute_allocate b t_max) = K b"
  "reward_posterior_alpha (execute_allocate b t_max) = reward_posterior_alpha b"
  "reward_posterior_beta (execute_allocate b t_max) = reward_posterior_beta b"
  by (simp_all add: execute_allocate_def)

lemma allocated_allocate: "allocated (execute_allocate b t_max) t_max"
  by (simp add: allocated_def execute_allocate_def zeros2_def shape2_def)

lemma compute_allocate_succeeds:
  assumes "prior_dist b = ''beta''" "reward_posterior_alpha b \<noteq> []" "reward_posterior_beta b \<noteq> []"
    "0 < K b" "0 < t_max"
  shows "\<exists>b1. compute_action_predictive_density g (execute_allocate b t_max) 0 = Inr b1"
proof -
  let ?b = "execute_allocate b t_max"
  have sh: "shape2 (K ?b) t_max (returns_expected ?b)"
    "shape2 (K ?b) t_max (actions_predictive_density_mean ?b)"
    "shape2 (K ?b) t_max (actions_predictive_density_var ?b)"
    using allocated_allocate[of b t_max] by (simp_all add: allocated_def)
  from compute_action_predictive_density_succeeds[of ?b t_max 0 g, OF _ _ _ _ sh assms(5)] assms(1-4)
  show ?thesis by (auto simp: allocate_fields)
qed

text \<open>Claim C1 fails on the code. In the mode \<open>argMax\<close> every run over at least one time
  instant raises, and no entry of the action record has been written when it does: once
  the estimator has returned, the branch for the infinite number of samples indexes the
  dictionary of the predictive density with \<^verbatim>\<open>[:,t]\<close> and raises TypeError.\<close>

theorem argMax_run_raises:
  assumes ty: "sampling_type (sampling b) = ''argMax''" and t: "0 < t_max"
  shows "\<exists>e b'. execute g b t_max = Inl (e, b') \<and> actions b' = zeros2 (K b) t_max 0
     \<and> (prior_dist b = ''beta'' \<and> reward_posterior_alpha b \<noteq> [] \<and> reward_posterior_beta b \<noteq> []
          \<and> 0 < K b \<longrightarrow> e = TypeError)"
proof (cases "compute_action_predictive_density g (execute_allocate b t_max) 0")
  case (Inl eb)
  obtain e b' where eb: "eb = (e, b')" by (cases eb)
  have "execute g b t_max = Inl (e, b')"
    using Inl eb t by (simp add: execute_head execute_step_def)
  moreover have "actions b' = zeros2 (K b) t_max 0"
    using compute_Inl[OF Inl[unfolded eb]] by (simp add: allocate_fields)
  moreover have "\<not> (prior_dist b = ''beta'' \<and> reward_posterior_alpha b \<noteq> []
      \<and> reward_posterior_beta b \<noteq> [] \<and> 0 < K b)"
    using compute_allocate_succeeds[of b t_max g] t Inl by auto
  ultimately show ?thesis by blast
next
  case (Inr b1)
  note f = compute_Inr_fields[OF Inr]
  have ns: "sampling_n_samples_at b1 0 = Inr PInf"
    using ty by (simp add: sampling_n_samples_at_def f allocate_fields)
  have len: "0 < length (n_samples b1)" using t by (simp add: f allocate_fields)
  have "pick_action g (b1\<lparr>n_samples := (n_samples b1)[0 := PInf]\<rparr>) 0
      = Inl (TypeError, b1\<lparr>n_samples := (n_samples b1)[0 := PInf]\<rparr>)"
    using len by (simp add: pick_action_def)
  then have "execute g b t_max = Inl (TypeError, b1\<lparr>n_samples := (n_samples b1)[0 := PInf]\<rparr>)"
    using Inr ns len t by (simp add: execute_head execute_step_def)
  moreover have "actions (b1\<lparr>n_samples := (n_samples b1)[0 := PInf]\<rparr>) = zeros2 (K b) t_max 0"
    by (simp add: f allocate_fields)
  ultimately show ?thesis by blast
qed

theorem argMax_run_raises_witness:
  "sampling_type (sampling (example_bandit ''argMax'' 1)) = ''argMax'' \<and> (0::nat) < 1
   \<and> (\<exists>b'. execute example_rng (example_bandit ''argMax'' 1) 1 = Inl (TypeError, b')
         \<and> actions b' = [[0, 0]]
         \<and> actions_predictive_density_mean b' = [[Fin (1 / 2), Fin (1 / 2)]]
         \<and> n_samples b' = [PInf])"
  using argMax_run_raises[of "example_bandit ''argMax'' 1" 1 example_rng]
  by (simp add: example_defs run_defs)


lemma pick_action_Inr_fields:
  assumes "pick_action g b t = Inr (b3, a)"
  shows "returns b3 = returns b" "reward_dist b3 = reward_dist b" "K b3 = K b"
    "reward_posterior_alpha b3 = reward_posterior_alpha b"
  using pick_action_Inr[OF assms] by auto

lemma execute_step_Inr_bernoulli:
  assumes "execute_step g b t = Inr b'"
  shows "reward_dist b = ''bernoulli''"
proof -
  from assms obtain b1 where c: "compute_action_predictive_density g b t = Inr b1"
    unfolding execute_step_def by (auto split: sum.splits)
  from assms c obtain ns where ns: "sampling_n_samples_at b1 t = Inr ns"
    unfolding execute_step_def by (auto split: sum.splits)
  from assms c ns obtain b3 action where
    p: "pick_action g (b1\<lparr>n_samples := (n_samples b1)[t := ns]\<rparr>) t = Inr (b3, action)"
    unfolding execute_step_def Let_def by (auto split: sum.splits if_splits)
  from assms c ns p obtain rets where
    u: "update_reward_posterior (b3\<lparr>returns := rets\<rparr>) t = Inr b'"
    unfolding execute_step_def Let_def by (auto split: sum.splits if_splits)
  from update_reward_posterior_Inr[OF u] have "reward_dist b3 = ''bernoulli''" by auto
  then show ?thesis
    using pick_action_Inr_fields(2)[OF p] compute_Inr_fields(5)[OF c] by simp
qed

lemma first_index_less: "first_index p xs = Some i \<Longrightarrow> i < length xs"
  by (induction xs arbitrary: i) (auto split: if_splits)

text \<open>Claim C2, as amended. In a run over at least one time instant: a prior other than
  Beta raises ValueError in the estimator at \<open>t = 0\<close>, with the arrays as allocated; an
  unsupported sampling mode (Beta prior, at least one arm) raises ValueError at \<open>t = 0\<close>
  after the estimator has written its columns and before any action or return is
  written; a reward family other than Bernoulli never lets the run complete, and the
  ValueError of the pairing is raised by \<^verbatim>\<open>update_reward_posterior\<close> after the action and
  the return of \<open>t = 0\<close> have been written.\<close>

theorem configuration_errors:
  assumes t: "0 < t_max"
  shows "(prior_dist b \<noteq> ''beta'' \<longrightarrow>
            execute g b t_max = Inl (ValueError, execute_allocate b t_max))
    \<and> (prior_dist b = ''beta'' \<and> reward_posterior_alpha b \<noteq> [] \<and> reward_posterior_beta b \<noteq> []
        \<and> 0 < K b
        \<and> sampling_type (sampling b) \<notin>
            {''static'', ''linear'', ''logT'', ''sqrtT'', ''invVar'', ''invPFA'', ''argMax''} \<longrightarrow>
          (\<exists>b1. compute_action_predictive_density g (execute_allocate b t_max) 0 = Inr b1
             \<and> execute g b t_max = Inl (ValueError, b1)
             \<and> actions b1 = zeros2 (K b) t_max 0 \<and> returns b1 = zeros2 (K b) t_max 0))
    \<and> (reward_dist b \<noteq> ''bernoulli'' \<longrightarrow>
          (\<exists>e b'. execute g b t_max = Inl (e, b'))
          \<and> (\<forall>b1 n b3 a.
                compute_action_predictive_density g (execute_allocate b t_max) 0 = Inr b1
                \<and> sampling_n_samples_at b1 0 = Inr n
                \<and> pick_action g (b1\<lparr>n_samples := (n_samples b1)[0 := n]\<rparr>) 0 = Inr (b3, a) \<longrightarrow>
                execute g b t_max
                  = Inl (ValueError,
                         b3\<lparr>returns := (returns b3)[0 := (returns b3 ! 0)[a := reward_rvs g 0 a]]\<rparr>)))"
proof (intro conjI impI)
  assume "prior_dist b \<noteq> ''beta''"
  then show "execute g b t_max = Inl (ValueError, execute_allocate b t_max)"
    using t by (simp add: execute_head execute_step_def compute_action_predictive_density_def
        allocate_fields)
next
  assume h: "prior_dist b = ''beta'' \<and> reward_posterior_alpha b \<noteq> [] \<and> reward_posterior_beta b \<noteq> []
        \<and> 0 < K b
        \<and> sampling_type (sampling b) \<notin>
            {''static'', ''linear'', ''logT'', ''sqrtT'', ''invVar'', ''invPFA'', ''argMax''}"
  then obtain b1 where c: "compute_action_predictive_density g (execute_allocate b t_max) 0 = Inr b1"
    using compute_allocate_succeeds[of b t_max g] t by blast
  note f = compute_Inr_fields[OF c]
  have "sampling_n_samples_at b1 0 = Inl ValueError"
    using h by (simp add: sampling_n_samples_at_def f allocate_fields)
  then have "execute g b t_max = Inl (ValueError, b1)"
    using c t by (simp add: execute_head execute_step_def)
  with c f show "\<exists>b1. compute_action_predictive_density g (execute_allocate b t_max) 0 = Inr b1
             \<and> execute g b t_max = Inl (ValueError, b1)
             \<and> actions b1 = zeros2 (K b) t_max 0 \<and> returns b1 = zeros2 (K b) t_max 0"
    by (simp add: allocate_fields)
next
  assume r: "reward_dist b \<noteq> ''bernoulli''"
  have "\<nexists>b'. execute_step g (execute_allocate b t_max) 0 = Inr b'"
    using execute_step_Inr_bernoulli[of g "execute_allocate b t_max" 0] r
    by (auto simp: allocate_fields)
  then obtain e b' where "execute_step g (execute_allocate b t_max) 0 = Inl (e, b')"
    by (cases "execute_step g (execute_allocate b t_max) 0") auto
  then show "\<exists>e b'. execute g b t_max = Inl (e, b')"
    using t by (simp add: execute_head)
next
  assume r: "reward_dist b \<noteq> ''bernoulli''"
  show "\<forall>b1 n b3 a.
                compute_action_predictive_density g (execute_allocate b t_max) 0 = Inr b1
                \<and> sampling_n_samples_at b1 0 = Inr n
                \<and> pick_action g (b1\<lparr>n_samples := (n_samples b1)[0 := n]\<rparr>) 0 = Inr (b3, a) \<longrightarrow>
                execute g b t_max
                  = Inl (ValueError,
                         b3\<lparr>returns := (returns b3)[0 := (returns b3 ! 0)[a := reward_rvs g 0 a]]\<rparr>)"
  proof (intro allI impI, elim conjE)
    fix b1 n b3 a
    assume c: "compute_action_predictive_density g (execute_allocate b t_max) 0 = Inr b1"
      and ns: "sampling_n_samples_at b1 0 = Inr n"
      and p: "pick_action g (b1\<lparr>n_samples := (n_samples b1)[0 := n]\<rparr>) 0 = Inr (b3, a)"
    note f = compute_Inr_fields[OF c]
    note pf = pick_action_Inr_fields[OF p]
    from pick_action_Inr[OF p] obtain a' where
      a': "a' < length (actions (b1\<lparr>n_samples := (n_samples b1)[0 := n]\<rparr>) ! 0)"
      and fi: "first_index (\<lambda>x. x = 1)
                 ((actions (b1\<lparr>n_samples := (n_samples b1)[0 := n]\<rparr>) ! 0)[a' := 1]) = Some a"
      by blast
    have "a < K b"
      using first_index_less[OF fi] t by (simp add: f allocate_fields zeros2_def)
    then have se: "set_elem (returns b3) a 0 (reward_rvs g 0 a)
        = Inr ((returns b3)[0 := (returns b3 ! 0)[a := reward_rvs g 0 a]])"
      using t by (simp add: set_elem_def pf f allocate_fields zeros2_def)
    have len: "0 < length (n_samples b1)" using t by (simp add: f allocate_fields)
    have "update_reward_posterior
            (b3\<lparr>returns := (returns b3)[0 := (returns b3 ! 0)[a := reward_rvs g 0 a]]\<rparr>) 0
        = Inl (ValueError, b3\<lparr>returns := (returns b3)[0 := (returns b3 ! 0)[a := reward_rvs g 0 a]]\<rparr>)"
      using r by (simp add: update_reward_posterior_def pf f allocate_fields)
    then show "execute g b t_max
                  = Inl (ValueError,
                         b3\<lparr>returns := (returns b3)[0 := (returns b3 ! 0)[a := reward_rvs g 0 a]]\<rparr>)"
      using c ns p se len t by (simp add: execute_head execute_step_def)
  qed
qed

text \<open>An unsupported mode raises with a predictive-density column already written, and a
  non-Bernoulli reward raises with an action and a return already written.\<close>

theorem error_after_writes_counterexample:
  "(case execute example_rng (example_bandit ''unknown'' 1) 1 of
      Inl (e, b') \<Rightarrow> e = ValueError
         \<and> actions_predictive_density_mean b' = [[Fin (1 / 2), Fin (1 / 2)]]
    | Inr b' \<Rightarrow> False)
   \<and> actions_predictive_density_mean (execute_allocate (example_bandit ''unknown'' 1) 1)
       = [[Fin 0, Fin 0]]
   \<and> (case execute example_rng ((example_bandit ''static'' 1)\<lparr>reward_dist := ''norm''\<rparr>) 1 of
      Inl (e, b') \<Rightarrow> e = ValueError \<and> actions b' = [[1, 0]] \<and> returns b' = [[1, 0]]
    | Inr b' \<Rightarrow> False)
   \<and> actions (execute_allocate ((example_bandit ''static'' 1)\<lparr>reward_dist := ''norm''\<rparr>) 1)
       = [[0, 0]]"
  by (simp add: example_defs run_defs)

theorem configuration_errors_witness:
  "execute example_rng ((example_bandit ''static'' 1)\<lparr>prior_dist := ''norm''\<rparr>) 1
     = Inl (ValueError, execute_allocate ((example_bandit ''static'' 1)\<lparr>prior_dist := ''norm''\<rparr>) 1)
   \<and> (\<exists>b1. compute_action_predictive_density example_rng
               (execute_allocate (example_bandit ''unknown'' 1) 1) 0 = Inr b1
         \<and> execute example_rng (example_bandit ''unknown'' 1) 1 = Inl (ValueError, b1)
         \<and> actions b1 = zeros2 (K (example_bandit ''unknown'' 1)) 1 0
         \<and> returns b1 = zeros2 (K (example_bandit ''unknown'' 1)) 1 0)
   \<and> (\<exists>e b'. execute example_rng ((example_bandit ''static'' 1)\<lparr>reward_dist := ''norm''\<rparr>) 1
         = Inl (e, b'))"
proof -
  have t: "(0::nat) < 1" by simp
  have a: "prior_dist ((example_bandit ''static'' 1)\<lparr>prior_dist := ''norm''\<rparr>) \<noteq> ''beta''"
    by simp
  have b: "prior_dist (example_bandit ''unknown'' 1) = ''beta''
      \<and> reward_posterior_alpha (example_bandit ''unknown'' 1) \<noteq> []
      \<and> reward_posterior_beta (example_bandit ''unknown'' 1) \<noteq> []
      \<and> 0 < K (example_bandit ''unknown'' 1)
      \<and> sampling_type (sampling (example_bandit ''unknown'' 1)) \<notin>
            {''static'', ''linear'', ''logT'', ''sqrtT'', ''invVar'', ''invPFA'', ''argMax''}"
    by (simp add: example_defs)
  have c: "reward_dist ((example_bandit ''static'' 1)\<lparr>reward_dist := ''norm''\<rparr>) \<noteq> ''bernoulli''"
    by simp
  from configuration_errors[OF t, of "(example_bandit ''static'' 1)\<lparr>prior_dist := ''norm''\<rparr>" example_rng] a
    configuration_errors[OF t, of "example_bandit ''unknown'' 1" example_rng] b
    configuration_errors[OF t, of "(example_bandit ''static'' 1)\<lparr>reward_dist := ''norm''\<rparr>" example_rng] c
  show ?thesis by blast
qed

end
